theory Spec2Isabelle
  imports Complex_Main
begin

section \<open>Strings of the Python runtime\<close>

text \<open>
  A Python \<open>str\<close> is a sequence of Unicode code points: indexing, slicing, \<open>len\<close> and
  the substring test \<open>in\<close> all count code points. It is modelled as a list of code
  points, each a natural number. An ASCII literal of the source is written
  \<open>ascii ''...''\<close>; a Thai literal is written out as its code points.
\<close>

type_synonym ustring = "nat list"

definition ascii :: "string \<Rightarrow> ustring" where
  "ascii s = map of_char s"

text \<open>\<open>starts_with p s\<close> is \<open>s.startswith(p)\<close>; \<open>str_contains p s\<close> is \<open>p in s\<close>.\<close>

fun starts_with :: "'a list \<Rightarrow> 'a list \<Rightarrow> bool" where
  "starts_with [] s = True"
| "starts_with (p # ps) [] = False"
| "starts_with (p # ps) (c # cs) = (p = c \<and> starts_with ps cs)"

fun str_contains :: "'a list \<Rightarrow> 'a list \<Rightarrow> bool" where
  "str_contains p [] = (p = [])"
| "str_contains p (c # cs) = (starts_with p (c # cs) \<or> str_contains p cs)"

text \<open>\<open>str_join sep xs\<close> is \<open>sep.join(xs)\<close>.\<close>

fun str_join :: "'a list \<Rightarrow> 'a list list \<Rightarrow> 'a list" where
  "str_join sep [] = []"
| "str_join sep [x] = x"
| "str_join sep (x # y # ys) = x @ sep @ str_join sep (y # ys)"

text \<open>
  The methods \<open>str.lower\<close>, \<open>str.isalnum\<close> and \<open>str.isspace\<close> are defined by the
  Unicode character database of the interpreter, which is no part of the repository.
  They are parameters of the model: \<open>str_lower\<close> maps a string to a string (Python's
  lowering is not character-wise: it may change the length), the other two are
  predicates on one code point.
\<close>

record pystr =
  str_lower :: "ustring \<Rightarrow> ustring"
  str_isalnum :: "nat \<Rightarrow> bool"
  str_isspace :: "nat \<Rightarrow> bool"

text \<open>\<open>strip U s\<close> is \<open>s.strip()\<close>: leading and trailing whitespace removed.\<close>

definition strip :: "pystr \<Rightarrow> ustring \<Rightarrow> ustring" where
  "strip U s = rev (dropWhile (str_isspace U) (rev (dropWhile (str_isspace U) s)))"

text \<open>
  The part of the runtime's tables that the examples below use: ASCII lowering, and
  \<open>isalnum\<close> on ASCII and on the Thai block U+0E00..U+0E7F, where the letters
  (U+0E01..U+0E30, U+0E32, U+0E33, U+0E40..U+0E46) and the digits (U+0E50..U+0E59)
  are alphanumeric and the combining vowel and tone marks, the currency sign and the
  punctuation are not.
\<close>

definition ascii_lower :: "ustring \<Rightarrow> ustring" where
  "ascii_lower s = map (\<lambda>c. if 65 \<le> c \<and> c \<le> 90 then c + 32 else c) s"

definition isalnum_ascii_thai :: "nat \<Rightarrow> bool" where
  "isalnum_ascii_thai c =
     ((48 \<le> c \<and> c \<le> 57) \<or> (65 \<le> c \<and> c \<le> 90) \<or> (97 \<le> c \<and> c \<le> 122) \<or>
      (3585 \<le> c \<and> c \<le> 3632) \<or> c = 3634 \<or> c = 3635 \<or>
      (3648 \<le> c \<and> c \<le> 3654) \<or> (3664 \<le> c \<and> c \<le> 3673))"

definition isspace_ascii :: "nat \<Rightarrow> bool" where
  "isspace_ascii c = (c = 32 \<or> (9 \<le> c \<and> c \<le> 13) \<or> (28 \<le> c \<and> c \<le> 31))"

definition sample_pystr :: pystr where
  "sample_pystr =
     \<lparr>str_lower = ascii_lower, str_isalnum = isalnum_ascii_thai, str_isspace = isspace_ascii\<rparr>"

section \<open>Language detection (retrieval.py, detect_language)\<close>

text \<open>
  The source tests whether a character lies between U+0E00 and U+0E7F; comparing
  one-character strings compares their code points.
\<close>

definition is_thai_char :: "nat \<Rightarrow> bool" where
  "is_thai_char c = (3584 \<le> c \<and> c \<le> 3711)"

text \<open>
  \<open>thai_chars\<close> counts the characters of the Thai block in the whole text,
  \<open>total_chars\<close> the alphanumeric characters. The source compares the float
  \<open>thai_chars / total_chars\<close> with the float \<open>0.3\<close>; the model compares the exact
  quotient with \<open>3/10\<close>. Both comparisons agree as long as the text has fewer than
  \<open>10^15\<close> characters: the double nearest to \<open>3/10\<close> is the value of the literal
  \<open>0.3\<close>, division rounds monotonically, and a quotient of two such counts that is
  not \<open>3/10\<close> is further from it than half a unit in the last place.
\<close>

definition detect_language :: "pystr \<Rightarrow> ustring \<Rightarrow> string" where
  "detect_language U text =
     (let thai_chars = length (filter is_thai_char text);
          total_chars = length (filter (str_isalnum U) text)
      in if total_chars = 0 then ''en''
         else let thai_ratio = (of_nat thai_chars / of_nat total_chars :: rat)
              in if thai_ratio > 3 / 10 then ''th'' else ''en'')"

text \<open>
  The detector as the specification words it: the Thai characters are counted among
  the alphanumeric characters, so a Thai character that is not alphanumeric counts
  neither above nor below the fraction bar.
\<close>

definition detect_spec :: "pystr \<Rightarrow> ustring \<Rightarrow> string" where
  "detect_spec U text =
     (let alnum = filter (str_isalnum U) text;
          thai_chars = length (filter is_thai_char alnum);
          total_chars = length alnum
      in if total_chars = 0 then ''en''
         else if (of_nat thai_chars / of_nat total_chars :: rat) > 3 / 10 then ''th''
         else ''en'')"

section \<open>Query expansion (retrieval.py, expand_query_with_translations)\<close>

text \<open>
  A \<open>dict\<close> keeps its keys in insertion order, and the loops of the source run over
  \<open>items()\<close> in that order, so a dictionary is an association list. Storing under a
  key that is present replaces the value and keeps the key's position.
\<close>

fun dict_set :: "('k \<times> 'v) list \<Rightarrow> 'k \<Rightarrow> 'v \<Rightarrow> ('k \<times> 'v) list" where
  "dict_set [] k v = [(k, v)]"
| "dict_set ((k', v') # d) k v =
     (if k' = k then (k', v) # d else (k', v') # dict_set d k v)"

definition THAI_SECURITY_KEYWORDS :: "(ustring \<times> ustring) list" where
  "THAI_SECURITY_KEYWORDS =
     [(ascii ''web security'',
         [3588, 3623, 3634, 3617, 3611, 3621, 3629, 3604, 3616, 3633, 3618, 3648, 3623, 3655, 3610, 3652, 3595, 3605, 3660]),
      (ascii ''website security'',
         [3588, 3623, 3634, 3617, 3611, 3621, 3629, 3604, 3616, 3633, 3618, 3648, 3623, 3655, 3610, 3652, 3595, 3605, 3660]),
      (ascii ''security standard'',
         [3617, 3634, 3605, 3619, 3600, 3634, 3609, 3588, 3623, 3634, 3617, 3611, 3621, 3629, 3604, 3616, 3633, 3618]),
      (ascii ''security controls'',
         [3617, 3634, 3605, 3619, 3585, 3634, 3619, 3588, 3623, 3634, 3617, 3611, 3621, 3629, 3604, 3616, 3633, 3618]),
      (ascii ''controls'',
         [3617, 3634, 3605, 3619, 3585, 3634, 3619]),
      (ascii ''government'',
         [3616, 3634, 3588, 3619, 3633, 3600]),
      (ascii ''requirements'',
         [3586, 3657, 3629, 3585, 3635, 3627, 3609, 3604]),
      (ascii ''access control'',
         [3585, 3634, 3619, 3588, 3623, 3610, 3588, 3640, 3617, 3585, 3634, 3619, 3648, 3586, 3657, 3634, 3606, 3638, 3591]),
      (ascii ''authentication'',
         [3585, 3634, 3619, 3618, 3639, 3609, 3618, 3633, 3609, 3605, 3633, 3623, 3605, 3609]),
      (ascii ''encryption'',
         [3585, 3634, 3619, 3648, 3586, 3657, 3634, 3619, 3627, 3633, 3626]),
      (ascii ''monitoring'',
         [3585, 3634, 3619, 3605, 3619, 3623, 3592, 3626, 3629, 3610]),
      (ascii ''incident response'',
         [3585, 3634, 3619, 3605, 3629, 3610, 3626, 3609, 3629, 3591, 3648, 3627, 3605, 3640, 3585, 3634, 3619, 3603, 3660]),
      (ascii ''risk management'',
         [3585, 3634, 3619, 3592, 3633, 3604, 3585, 3634, 3619, 3588, 3623, 3634, 3617, 3648, 3626, 3637, 3656, 3618, 3591]),
      (ascii ''logging'',
         [3585, 3634, 3619, 3610, 3633, 3609, 3607, 3638, 3585]),
      (ascii ''audit'',
         [3585, 3634, 3619, 3605, 3619, 3623, 3592, 3626, 3629, 3610]),
      (ascii ''vulnerability'',
         [3594, 3656, 3629, 3591, 3650, 3627, 3623, 3656]),
      (ascii ''injection'',
         [3585, 3634, 3619, 3649, 3607, 3619, 3585]),
      (ascii ''broken access'',
         [3585, 3634, 3619, 3588, 3623, 3610, 3588, 3640, 3617, 3585, 3634, 3619, 3648, 3586, 3657, 3634, 3606, 3638, 3591, 3607, 3637, 3656, 3648, 3626, 3637, 3618, 3627, 3634, 3618])]"

text \<open>The comprehension \<open>{v: k for k, v in THAI_SECURITY_KEYWORDS.items()}\<close>.\<close>

definition ENGLISH_SECURITY_KEYWORDS :: "(ustring \<times> ustring) list" where
  "ENGLISH_SECURITY_KEYWORDS =
     foldl (\<lambda>d (k, v). dict_set d v k) [] THAI_SECURITY_KEYWORDS"

definition expand_query_with_translations :: "pystr \<Rightarrow> ustring \<Rightarrow> string \<Rightarrow> ustring list" where
  "expand_query_with_translations U query detected_lang =
     (let queries = [query] in
      if detected_lang = ''en'' then
        (let expanded_query =
               foldl (\<lambda>e (en_term, th_term).
                        if str_contains (str_lower U en_term) (str_lower U query)
                        then e @ ascii '' '' @ th_term else e)
                     query THAI_SECURITY_KEYWORDS;
             queries = (if expanded_query \<noteq> query then queries @ [expanded_query] else queries);
             thai_only =
               foldl (\<lambda>acc (en_term, th_term).
                        if str_contains (str_lower U en_term) (str_lower U query)
                        then acc @ [th_term] else acc)
                     [] THAI_SECURITY_KEYWORDS
         in if thai_only \<noteq> [] then queries @ [str_join (ascii '' '') thai_only] else queries)
      else if detected_lang = ''th'' then
        (let expanded_query =
               foldl (\<lambda>e (th_term, en_term).
                        if str_contains th_term query then e @ ascii '' '' @ en_term else e)
                     query ENGLISH_SECURITY_KEYWORDS
         in if expanded_query \<noteq> query then queries @ [expanded_query] else queries)
      else queries)"

text \<open>
  What the properties of the expansion ask of the runtime's \<open>lower\<close>: a string made
  of spaces, the letters a to z and characters of the Thai block only has no cased
  character other than lower-case ones, and is returned as it is.
\<close>

definition lower_keeps_uncased :: "pystr \<Rightarrow> bool" where
  "lower_keeps_uncased U =
     (\<forall>s. (\<forall>c \<in> set s. c = 32 \<or> (97 \<le> c \<and> c \<le> 122) \<or> is_thai_char c) \<longrightarrow> str_lower U s = s)"

section \<open>Thai-related queries and the noise filter (retrieval.py)\<close>

definition thai_indicators :: "ustring list" where
  "thai_indicators =
     [ascii ''thailand'',
      ascii ''thai'',
      [3652, 3607, 3618],
      [3616, 3634, 3588, 3619, 3633, 3600],
      [3617, 3634, 3605, 3619, 3600, 3634, 3609],
      [3614, 46, 3624, 46],
      ascii ''ncsa'',
      ascii ''government'']"

definition is_thai_related_query :: "pystr \<Rightarrow> ustring \<Rightarrow> bool" where
  "is_thai_related_query U query =
     (let query_lower = str_lower U query
      in list_ex (\<lambda>indicator. str_contains indicator query_lower) thai_indicators)"

text \<open>
  A document of the index: its text and the metadata keys that the code reads. A key
  that is absent is \<open>None\<close>; \<open>slide_num\<close> is set from a page number that the
  extraction library types as an optional integer, so a key that is present may hold
  Python's \<open>None\<close> (\<open>PNone\<close>). A tag is a string that the code only compares with
  ASCII literals.
\<close>

datatype pyint = PNone | PInt int

record metadata =
  doc_type :: "string option"
  slide_num :: "pyint option"
  extraction_method :: "string option"
  content_type :: "string option"

record document =
  page_content :: ustring
  metadata :: metadata

text \<open>
  A score is a distance: a float of the index that is a number, compared as the real
  it stands for; a lower one is a better match.
\<close>

type_synonym scored = "document \<times> real"

definition irrelevant_indicators :: "ustring list" where
  "irrelevant_indicators =
     [[3610, 3619, 3619, 3603, 3634, 3609, 3640, 3585, 3619, 3617],
      ascii ''bibliography'',
      ascii ''references'',
      [3626, 3634, 3619, 3610, 3633, 3597],
      ascii ''table of contents'',
      [3629, 3657, 3634, 3591, 3629, 3636, 3591]]"

definition is_irrelevant :: "pystr \<Rightarrow> document \<Rightarrow> bool" where
  "is_irrelevant U doc =
     (let content_lower = str_lower U (page_content doc)
      in list_ex (\<lambda>indicator. str_contains indicator content_lower) irrelevant_indicators)"

definition filter_irrelevant_pages :: "pystr \<Rightarrow> scored list \<Rightarrow> ustring \<Rightarrow> scored list" where
  "filter_irrelevant_pages U results_with_scores query =
     (let filtered = filter (\<lambda>(doc, score). \<not> is_irrelevant U doc) results_with_scores
      in if filtered = [] \<and> results_with_scores \<noteq> [] then results_with_scores else filtered)"

section \<open>Multilingual retrieval (retrieval.py, retrieve_documents_multilingual)\<close>

text \<open>
  What a call of the index can raise: an exception that derives from \<open>Exception\<close>,
  which the handler \<open>except Exception\<close> catches (a \<open>TypeError\<close> is one of them), or
  one that does not (an interrupt), which no handler of the code catches.
\<close>

datatype error = Exception | TypeError | BaseException

definition caught_by_except_Exception :: "error \<Rightarrow> bool" where
  "caught_by_except_Exception e = (e \<noteq> BaseException)"

text \<open>
  The vector store is an external service. A call takes the store's state, the query
  text and \<open>k\<close>, and returns the scored documents or raises, with the next state.
  The world of a retrieval is the store's state, the record of the search calls made
  so far (query text and \<open>k\<close>, in the order of the calls) and the exceptions that
  were reported by a printed warning.
\<close>

type_synonym 's vectorstore = "'s \<Rightarrow> ustring \<Rightarrow> int \<Rightarrow> (error + scored list) \<times> 's"

record 's world =
  store :: 's
  calls :: "(ustring \<times> int) list"
  warnings :: "error list"

definition similarity_search_with_score ::
  "'s vectorstore \<Rightarrow> ustring \<Rightarrow> int \<Rightarrow> 's world \<Rightarrow> (error + scored list) \<times> 's world" where
  "similarity_search_with_score vs query k w =
     (case vs (store w) query k of
        (r, s') \<Rightarrow> (r, w\<lparr>store := s', calls := calls w @ [(query, k)]\<rparr>))"

text \<open>The loop over \<open>expanded_queries[1:]\<close>, with its \<open>try\<close> around the search.\<close>

fun search_expanded ::
  "pystr \<Rightarrow> 's vectorstore \<Rightarrow> ustring \<Rightarrow> int \<Rightarrow> ustring list \<Rightarrow> scored list \<Rightarrow> 's world
     \<Rightarrow> (error + scored list) \<times> 's world" where
  "search_expanded U vs query k [] results w = (Inr results, w)"
| "search_expanded U vs query k (expanded_query # rest) results w =
     (if strip U expanded_query \<noteq> strip U query then
        (case similarity_search_with_score vs expanded_query k w of
           (Inr additional_results, w') \<Rightarrow>
             search_expanded U vs query k rest (results @ additional_results) w'
         | (Inl e, w') \<Rightarrow>
             if caught_by_except_Exception e
             then search_expanded U vs query k rest results (w'\<lparr>warnings := warnings w' @ [e]\<rparr>)
             else (Inl e, w'))
      else search_expanded U vs query k rest results w)"

text \<open>\<open>fingerprint doc\<close> is \<open>doc.page_content[:100]\<close>.\<close>

definition fingerprint :: "document \<Rightarrow> ustring" where
  "fingerprint doc = take 100 (page_content doc)"

text \<open>The deduplication loop, with its set \<open>seen_content\<close> and its list \<open>unique_results\<close>.\<close>

fun dedup_loop :: "ustring set \<Rightarrow> scored list \<Rightarrow> scored list \<Rightarrow> scored list" where
  "dedup_loop seen_content unique_results [] = unique_results"
| "dedup_loop seen_content unique_results ((doc, score) # results) =
     (if fingerprint doc \<notin> seen_content
      then dedup_loop (insert (fingerprint doc) seen_content) (unique_results @ [(doc, score)]) results
      else dedup_loop seen_content unique_results results)"

definition deduplicate :: "scored list \<Rightarrow> scored list" where
  "deduplicate results = dedup_loop {} [] results"

text \<open>
  \<open>slice_to k xs\<close> is \<open>xs[:k]\<close>: the first \<open>k\<close> elements, and for a negative \<open>k\<close> all
  but the last \<open>-k\<close>.
\<close>

definition slice_to :: "int \<Rightarrow> 'a list \<Rightarrow> 'a list" where
  "slice_to k xs = (if 0 \<le> k then take (nat k) xs else take (length xs - nat (- k)) xs)"

text \<open>
  The adapted \<open>k\<close> of the search calls. \<open>list.sort\<close> is stable, as \<open>sort_key\<close> is.
\<close>

definition adapted_k :: "pystr \<Rightarrow> ustring \<Rightarrow> int \<Rightarrow> bool \<Rightarrow> int" where
  "adapted_k U query k adaptive_k =
     (if adaptive_k \<and> (detect_language U query = ''th'' \<or> is_thai_related_query U query)
      then min (k + 5) 15 else k)"

definition rank_results :: "pystr \<Rightarrow> ustring \<Rightarrow> int \<Rightarrow> bool \<Rightarrow> scored list \<Rightarrow> scored list" where
  "rank_results U query original_k filter_pages results =
     (let results = (if filter_pages then filter_irrelevant_pages U results query else results);
          unique_results = deduplicate results;
          unique_results = sort_key snd unique_results
      in slice_to original_k unique_results)"

text \<open>
  The searches of \<open>retrieve_documents_multilingual\<close>: the original query first,
  outside any handler, then the expansions. The result is the list \<open>results\<close> as it
  stands before the filter.
\<close>

definition search_all ::
  "pystr \<Rightarrow> 's vectorstore \<Rightarrow> ustring \<Rightarrow> int \<Rightarrow> bool \<Rightarrow> 's world
     \<Rightarrow> (error + scored list) \<times> 's world" where
  "search_all U vs query k adaptive_k w =
     (let detected_lang = detect_language U query;
          k = adapted_k U query k adaptive_k
      in case similarity_search_with_score vs query k w of
           (Inl e, w1) \<Rightarrow> (Inl e, w1)
         | (Inr results, w1) \<Rightarrow>
             (let expanded_queries = expand_query_with_translations U query detected_lang
              in search_expanded U vs query k (drop 1 expanded_queries) results w1))"

definition retrieve_documents_multilingual ::
  "pystr \<Rightarrow> 's vectorstore \<Rightarrow> ustring \<Rightarrow> int \<Rightarrow> bool \<Rightarrow> bool \<Rightarrow> 's world
     \<Rightarrow> (error + document list) \<times> 's world" where
  "retrieve_documents_multilingual U vs query k adaptive_k filter_pages w =
     (let original_k = k
      in case search_all U vs query k adaptive_k w of
           (Inl e, w') \<Rightarrow> (Inl e, w')
         | (Inr results, w') \<Rightarrow>
             (Inr (map fst (rank_results U query original_k filter_pages results)), w'))"

text \<open>
  The expansion variants that the loop searches: the expanded queries after the first
  that differ from the query once both are stripped.
\<close>

definition variants :: "pystr \<Rightarrow> ustring \<Rightarrow> ustring list" where
  "variants U query =
     filter (\<lambda>e. strip U e \<noteq> strip U query)
       (drop 1 (expand_query_with_translations U query (detect_language U query)))"

section \<open>Chunking (rag_pipeline.py)\<close>

text \<open>
  The text splitter is a class of an external library. It is a parameter of the model:
  \<open>R chunk_size chunk_overlap separators\<close> is the \<open>split_text\<close> method of the
  splitter built with these arguments, a function from a text to its pieces. The
  library's \<open>create_documents\<close> gives every piece of the \<open>i\<close>-th text the \<open>i\<close>-th
  metadata, and \<open>split_documents\<close> calls it with the texts and the metadata of the
  documents.
\<close>

type_synonym splitter = "nat \<Rightarrow> nat \<Rightarrow> ustring list \<Rightarrow> ustring \<Rightarrow> ustring list"

definition create_documents ::
  "(ustring \<Rightarrow> ustring list) \<Rightarrow> ustring list \<Rightarrow> metadata list \<Rightarrow> document list" where
  "create_documents split_text texts metadatas =
     concat (map (\<lambda>(text, meta). map (\<lambda>chunk. \<lparr>page_content = chunk, metadata = meta\<rparr>)
                                       (split_text text))
                 (zip texts metadatas))"

definition split_documents :: "(ustring \<Rightarrow> ustring list) \<Rightarrow> document list \<Rightarrow> document list" where
  "split_documents split_text docs =
     create_documents split_text (map page_content docs) (map metadata docs)"

text \<open>The separators \<open>["\n\n", "\n", " ", ""]\<close>, which are the library's default too.\<close>

definition separators :: "ustring list" where
  "separators = [[10, 10], [10], [32], []]"

definition chunk_textbook_style :: "splitter \<Rightarrow> document list \<Rightarrow> document list" where
  "chunk_textbook_style R docs = split_documents (R 1000 200 separators) docs"

definition chunk_thai_style :: "splitter \<Rightarrow> document list \<Rightarrow> document list" where
  "chunk_thai_style R docs = split_documents (R 800 150 separators) docs"

text \<open>
  \<open>sorted(docs, key=...)\<close> with keys that are integers or \<open>None\<close>. Sorting two or
  more elements compares every key with another one, and a comparison with \<open>None\<close>
  raises \<open>TypeError\<close>; one element or none is never compared. The sort is stable.
\<close>

definition sorted_by :: "('a \<Rightarrow> pyint) \<Rightarrow> 'a list \<Rightarrow> error + 'a list" where
  "sorted_by key xs =
     (if 2 \<le> length xs \<and> list_ex (\<lambda>x. key x = PNone) xs then Inl TypeError
      else Inr (sort_key (\<lambda>x. case key x of PInt n \<Rightarrow> n | PNone \<Rightarrow> 0) xs))"

text \<open>
  \<open>itertools.groupby\<close>: the maximal runs of consecutive elements with equal keys, each
  with its key.
\<close>

function groupby :: "('a \<Rightarrow> 'k) \<Rightarrow> 'a list \<Rightarrow> ('k \<times> 'a list) list" where
  "groupby key [] = []"
| "groupby key (x # xs) =
     (key x, x # takeWhile (\<lambda>y. key y = key x) xs)
       # groupby key (dropWhile (\<lambda>y. key y = key x) xs)"
  by pat_completeness auto
termination
  by (relation "measure (\<lambda>(key, xs). length xs)")
     (auto simp: length_dropWhile_le less_Suc_eq_le)

text \<open>
  The two keys of the slide chunker: \<open>metadata.get('slide_num', 0)\<close> for the sort and
  \<open>metadata.get('slide_num')\<close> for the grouping.
\<close>

definition slide_sort_key :: "document \<Rightarrow> pyint" where
  "slide_sort_key x = (case slide_num (metadata x) of None \<Rightarrow> PInt 0 | Some v \<Rightarrow> v)"

definition slide_group_key :: "document \<Rightarrow> pyint" where
  "slide_group_key x = (case slide_num (metadata x) of None \<Rightarrow> PNone | Some v \<Rightarrow> v)"

definition is_text_item :: "document \<Rightarrow> bool" where
  "is_text_item d = (content_type (metadata d) = Some ''text'')"

definition is_special_item :: "document \<Rightarrow> bool" where
  "is_special_item d =
     (content_type (metadata d) \<in> set [Some ''table'', Some ''diagram'', Some ''image''])"

text \<open>The body of the loop over the groups, for the items of one slide.\<close>

definition chunk_slide_group :: "(ustring \<Rightarrow> ustring list) \<Rightarrow> document list \<Rightarrow> document list" where
  "chunk_slide_group split_text slide_items =
     (let text_items = filter is_text_item slide_items;
          special_items = filter is_special_item slide_items
      in (if text_items \<noteq> []
          then (let slide_text = str_join [10] (map page_content text_items);
                    slide_meta = metadata (hd text_items)
                in create_documents split_text [slide_text] [slide_meta])
          else [])
         @ special_items)"

definition chunk_slide_style :: "splitter \<Rightarrow> document list \<Rightarrow> error + document list" where
  "chunk_slide_style R docs =
     (case sorted_by slide_sort_key docs of
        Inl e \<Rightarrow> Inl e
      | Inr sorted_docs \<Rightarrow>
          Inr (concat (map (\<lambda>(slide_num, slide_items).
                              chunk_slide_group (R 1000 100 separators) slide_items)
                           (groupby slide_group_key sorted_docs))))"

text \<open>The four lists that \<open>_chunk_all_content\<close> separates its input into.\<close>

definition textbook_docs :: "document list \<Rightarrow> document list" where
  "textbook_docs docs =
     filter (\<lambda>d. doc_type (metadata d) \<noteq> None \<and> doc_type (metadata d) = Some ''textbook'') docs"

definition slide_docs :: "document list \<Rightarrow> document list" where
  "slide_docs docs = filter (\<lambda>d. slide_num (metadata d) \<noteq> None) docs"

definition thai_docs :: "document list \<Rightarrow> document list" where
  "thai_docs docs =
     filter (\<lambda>d. extraction_method (metadata d) = Some ''pytesseract_ocr'') docs"

definition other_docs :: "document list \<Rightarrow> document list" where
  "other_docs docs =
     filter (\<lambda>d. d \<notin> set (textbook_docs docs @ slide_docs docs @ thai_docs docs)) docs"

definition chunk_all_content :: "splitter \<Rightarrow> document list \<Rightarrow> error + document list" where
  "chunk_all_content R docs =
     (let final_chunks = [];
          final_chunks =
            (if textbook_docs docs \<noteq> []
             then final_chunks @ chunk_textbook_style R (textbook_docs docs) else final_chunks)
      in case (if slide_docs docs \<noteq> [] then chunk_slide_style R (slide_docs docs) else Inr []) of
           Inl e \<Rightarrow> Inl e
         | Inr slide_chunks \<Rightarrow>
             (let final_chunks = final_chunks @ slide_chunks;
                  final_chunks =
                    (if thai_docs docs \<noteq> []
                     then final_chunks @ chunk_thai_style R (thai_docs docs) else final_chunks);
                  final_chunks =
                    (if other_docs docs \<noteq> []
                     then final_chunks @ chunk_textbook_style R (other_docs docs) else final_chunks)
              in Inr final_chunks))"



section \<open>Sample data\<close>

text \<open>A document with the given text and no metadata key that the code reads.\<close>

definition mk_doc :: "ustring \<Rightarrow> document" where
  "mk_doc t =
     \<lparr>page_content = t,
      metadata = \<lparr>doc_type = None, slide_num = None, extraction_method = None,
                  content_type = None\<rparr>\<rparr>"

text \<open>
  A store without state that knows three documents and answers every query with the
  first \<open>k\<close> of them; and the world before any call.
\<close>

definition three_docs :: "scored list" where
  "three_docs = [(mk_doc (ascii ''gamma''), 3), (mk_doc (ascii ''alpha''), 1),
                 (mk_doc (ascii ''beta''), 2)]"

definition demo_store :: "unit vectorstore" where
  "demo_store s query k = (Inr (take (nat k) three_docs), s)"

definition world0 :: "unit world" where
  "world0 = \<lparr>store = (), calls = [], warnings = []\<rparr>"

text \<open>
  A store whose every search raises, and a store that counts its calls and raises on
  the second one only.
\<close>

definition failing_store :: "unit vectorstore" where
  "failing_store s query k = (Inl Exception, s)"

definition flaky_store :: "nat vectorstore" where
  "flaky_store n query k =
     (if n = 1 then Inl Exception else Inr (take (nat k) three_docs), Suc n)"

text \<open>The Thai translations of \<open>web security\<close> and of \<open>audit\<close> in the glossary.\<close>

definition th_web_security :: ustring where
  "th_web_security = [3588, 3623, 3634, 3617, 3611, 3621, 3629, 3604, 3616, 3633, 3618, 3648, 3623, 3655, 3610, 3652, 3595, 3605, 3660]"

definition th_audit :: ustring where
  "th_audit = [3585, 3634, 3619, 3605, 3619, 3623, 3592, 3626, 3629, 3610]"

text \<open>
  Items with the tags that the chunker tests for, an item of the Thai extractor that
  is no OCR text, and a splitter that leaves every text in one piece.
\<close>

definition textbook_item :: document where
  "textbook_item =
     \<lparr>page_content = ascii ''chapter'',
      metadata = \<lparr>doc_type = Some ''textbook'', slide_num = None, extraction_method = None,
                  content_type = Some ''text''\<rparr>\<rparr>"

definition slide_item :: "int \<Rightarrow> string \<Rightarrow> string \<Rightarrow> document" where
  "slide_item n kind txt =
     \<lparr>page_content = ascii txt,
      metadata = \<lparr>doc_type = None, slide_num = Some (PInt n), extraction_method = None,
                  content_type = Some kind\<rparr>\<rparr>"

definition thai_item :: document where
  "thai_item =
     \<lparr>page_content = th_audit,
      metadata = \<lparr>doc_type = None, slide_num = None,
                  extraction_method = Some ''pytesseract_ocr'', content_type = Some ''text''\<rparr>\<rparr>"

definition visual_item :: document where
  "visual_item =
     \<lparr>page_content = ascii ''[Table]'',
      metadata = \<lparr>doc_type = None, slide_num = None,
                  extraction_method = Some ''unstructured_hires'', content_type = Some ''table''\<rparr>\<rparr>"

definition whole_text :: splitter where
  "whole_text chunk_size chunk_overlap seps text = [text]"

section \<open>Properties of the language detector\<close>

lemma ratio_exceeds_iff:
  "0 < b \<Longrightarrow> ((of_nat a / of_nat b :: rat) > 3 / 10) = (3 * b < 10 * a)"
proof -
  assume b: "0 < b"
  have "((3::rat) / 10 < of_nat a / of_nat b) = ((3::rat) * of_nat b < 10 * of_nat a)"
    using b by (simp add: field_simps)
  also have "\<dots> = ((of_nat (3 * b) :: rat) < of_nat (10 * a))"
    by simp
  also have "\<dots> = (3 * b < 10 * a)"
    by (simp only: of_nat_less_iff)
  finally show ?thesis .
qed

text \<open>
  Claim C5, as the code has it. The detector counts every character of the Thai block
  in the text, alphanumeric or not, and the alphanumeric characters of the text. With
  no alphanumeric character the answer is \<open>en\<close>; otherwise it is \<open>th\<close> exactly when
  the first count divided by the second exceeds 0.3, that is when ten times the first
  exceeds three times the second, and \<open>en\<close> if not. The detector is a function of the
  text and the runtime's tables alone.
\<close>

theorem detect_language_ratio:
  "(length (filter (str_isalnum U) text) = 0 \<longrightarrow> detect_language U text = ''en'') \<and>
   (0 < length (filter (str_isalnum U) text) \<longrightarrow>
      detect_language U text =
        (if 3 * length (filter (str_isalnum U) text) < 10 * length (filter is_thai_char text)
         then ''th'' else ''en''))"
proof (cases "length (filter (str_isalnum U) text) = 0")
  case True
  then show ?thesis
    by (simp add: detect_language_def)
next
  case False
  then have pos: "0 < length (filter (str_isalnum U) text)"
    by (simp only: neq0_conv)
  show ?thesis
    unfolding detect_language_def Let_def
    by (simp only: False pos if_False simp_thms ratio_exceeds_iff [OF pos])
qed

text \<open>
  Both cases of C5 at concrete texts: a Thai consonant with a vowel mark and a tone
  mark (U+0E17 U+0E35 U+0E48), a space and \<open>abcde\<close> has six alphanumeric characters
  and three Thai ones, so it is \<open>th\<close>; a space and an exclamation mark have no
  alphanumeric character, so they are \<open>en\<close>.
\<close>

theorem detect_language_ratio_witness:
  "0 < length (filter (str_isalnum sample_pystr) ([3607, 3637, 3656, 32] @ ascii ''abcde'')) \<and>
   detect_language sample_pystr ([3607, 3637, 3656, 32] @ ascii ''abcde'') = ''th'' \<and>
   length (filter (str_isalnum sample_pystr) [32, 33]) = 0 \<and>
   detect_language sample_pystr [32, 33] = ''en''"
  using detect_language_ratio [of sample_pystr "[3607, 3637, 3656, 32] @ ascii ''abcde''"]
        detect_language_ratio [of sample_pystr "[32, 33]"]
  by (simp add: sample_pystr_def isalnum_ascii_thai_def is_thai_char_def ascii_def)

text \<open>
  C5 as the specification words it fails on the same text: of its six alphanumeric
  characters one lies in the Thai block, a ratio of 1/6 and the answer \<open>en\<close>, while
  the code counts the two marks as well and answers \<open>th\<close>.
\<close>

theorem detect_language_spec_counterexample:
  "detect_language sample_pystr ([3607, 3637, 3656, 32] @ ascii ''abcde'') = ''th'' \<and>
   detect_spec sample_pystr ([3607, 3637, 3656, 32] @ ascii ''abcde'') = ''en''"
  by (simp add: detect_language_def detect_spec_def sample_pystr_def isalnum_ascii_thai_def
      is_thai_char_def ascii_def)

section \<open>Properties of the noise filter\<close>

text \<open>
  Claim C4. When the input is not empty and the lowered text of every passage contains
  a noise marker, the filter returns its input as it is. The filter is a total
  function to a list: it has no error to report.
\<close>

theorem filter_irrelevant_pages_fallback:
  assumes "results_with_scores \<noteq> []"
    and "\<forall>(doc, score) \<in> set results_with_scores. is_irrelevant U doc"
  shows "filter_irrelevant_pages U results_with_scores query = results_with_scores"
proof -
  have "filter (\<lambda>(doc, score). \<not> is_irrelevant U doc) results_with_scores = []"
    using assms(2) by (auto simp: filter_empty_conv)
  with assms(1) show ?thesis
    by (simp add: filter_irrelevant_pages_def)
qed

text \<open>
  C4 at two passages, a reference list and a table of contents: both are noise, and
  both come back.
\<close>

theorem filter_irrelevant_pages_fallback_witness:
  "[(mk_doc (ascii ''References [1]''), 1), (mk_doc (ascii ''Table of Contents''), 2)] \<noteq> [] \<and>
   is_irrelevant sample_pystr (mk_doc (ascii ''References [1]'')) \<and>
   is_irrelevant sample_pystr (mk_doc (ascii ''Table of Contents'')) \<and>
   filter_irrelevant_pages sample_pystr
     [(mk_doc (ascii ''References [1]''), 1), (mk_doc (ascii ''Table of Contents''), 2)]
     (ascii ''audit'') =
     [(mk_doc (ascii ''References [1]''), 1), (mk_doc (ascii ''Table of Contents''), 2)]"
proof -
  have h: "\<forall>(doc, score) \<in> set [(mk_doc (ascii ''References [1]''), 1::real),
                                  (mk_doc (ascii ''Table of Contents''), 2)].
       is_irrelevant sample_pystr doc"
    by (simp add: is_irrelevant_def irrelevant_indicators_def sample_pystr_def ascii_lower_def
        ascii_def mk_doc_def)
  show ?thesis
    using h filter_irrelevant_pages_fallback [OF _ h, of "ascii ''audit''"] by simp
qed

section \<open>Properties of the deduplication\<close>

lemma dedup_loop_acc:
  "dedup_loop seen acc rs = acc @ dedup_loop seen [] rs"
proof (induction rs arbitrary: seen acc)
  case Nil
  show ?case by simp
next
  case (Cons r rs)
  obtain doc score where r: "r = (doc, score)" by (cases r)
  show ?case
    using Cons.IH [of "insert (fingerprint doc) seen" "acc @ [(doc, score)]"]
          Cons.IH [of "insert (fingerprint doc) seen" "[(doc, score)]"]
          Cons.IH [of seen acc]
    by (simp add: r)
qed

lemma dedup_loop_append:
  "dedup_loop seen [] (xs @ ys) =
     dedup_loop seen [] xs @ dedup_loop (seen \<union> fingerprint ` fst ` set xs) [] ys"
proof (induction xs arbitrary: seen)
  case Nil
  show ?case by simp
next
  case (Cons r xs)
  obtain doc score where r: "r = (doc, score)" by (cases r)
  show ?case
  proof (cases "fingerprint doc \<in> seen")
    case True
    then have "seen \<union> fingerprint ` fst ` set (r # xs) = seen \<union> fingerprint ` fst ` set xs"
      by (auto simp: r)
    with True Cons.IH [of seen] show ?thesis
      by (simp add: r)
  next
    case False
    have "seen \<union> fingerprint ` fst ` set (r # xs) =
            insert (fingerprint doc) seen \<union> fingerprint ` fst ` set xs"
      by (auto simp: r)
    with False Cons.IH [of "insert (fingerprint doc) seen"]
         dedup_loop_acc [of _ "[(doc, score)]"]
    show ?thesis
      by (simp add: r)
  qed
qed

lemma dedup_loop_subset:
  "set (dedup_loop seen [] rs) \<subseteq> {r \<in> set rs. fingerprint (fst r) \<notin> seen}"
proof (induction rs arbitrary: seen)
  case Nil
  show ?case by simp
next
  case (Cons r rs)
  obtain doc score where r: "r = (doc, score)" by (cases r)
  show ?case
    using Cons.IH [of seen] Cons.IH [of "insert (fingerprint doc) seen"]
          dedup_loop_acc [of "insert (fingerprint doc) seen" "[(doc, score)]" rs]
    by (auto simp: r)
qed

lemma dedup_loop_distinct:
  "distinct (map (\<lambda>r. fingerprint (fst r)) (dedup_loop seen [] rs))"
proof (induction rs arbitrary: seen)
  case Nil
  show ?case by simp
next
  case (Cons r rs)
  obtain doc score where r: "r = (doc, score)" by (cases r)
  show ?case
    using Cons.IH [of seen] Cons.IH [of "insert (fingerprint doc) seen"]
          dedup_loop_acc [of "insert (fingerprint doc) seen" "[(doc, score)]" rs]
          dedup_loop_subset [of "insert (fingerprint doc) seen" rs]
    by (auto simp: r)
qed

lemma deduplicate_subset: "set (deduplicate rs) \<subseteq> set rs"
  using dedup_loop_subset [of "{}" rs] by (auto simp: deduplicate_def)

lemma deduplicate_distinct: "distinct (map (\<lambda>r. fingerprint (fst r)) (deduplicate rs))"
  by (simp add: deduplicate_def dedup_loop_distinct)

text \<open>
  Claim C2. Deduplication runs over its input in order and keeps a pair exactly when no
  earlier pair of the input has the same fingerprint (the first 100 characters of the
  document's text, as they are): the empty list stays empty, and a pair added at the
  end of the input is added at the end of the output, or dropped when its fingerprint
  has occurred. So of all the pairs with one fingerprint the first of the input is the
  only one kept, with its own score, whatever the scores of the later ones.
\<close>

theorem deduplicate_first_occurrence:
  "deduplicate [] = [] \<and>
   deduplicate (rs @ [(doc, score)]) =
     deduplicate rs @
       (if fingerprint doc \<in> fingerprint ` fst ` set rs then [] else [(doc, score)]) \<and>
   (fingerprint doc \<notin> fingerprint ` fst ` set xs \<longrightarrow>
      filter (\<lambda>(d, s). fingerprint d = fingerprint doc) (deduplicate (xs @ (doc, score) # ys))
        = [(doc, score)])"
proof (intro conjI impI)
  show "deduplicate [] = []"
    by (simp add: deduplicate_def)
  show "deduplicate (rs @ [(doc, score)]) =
     deduplicate rs @
       (if fingerprint doc \<in> fingerprint ` fst ` set rs then [] else [(doc, score)])"
    by (simp add: deduplicate_def dedup_loop_append)
next
  assume fresh: "fingerprint doc \<notin> fingerprint ` fst ` set xs"
  let ?same = "\<lambda>(d, s). fingerprint d = fingerprint doc"
  have split: "deduplicate (xs @ (doc, score) # ys) =
      deduplicate xs @ (doc, score) #
        dedup_loop (insert (fingerprint doc) (fingerprint ` fst ` set xs)) [] ys"
    using fresh dedup_loop_acc [of _ "[(doc, score)]" ys]
    by (simp add: deduplicate_def dedup_loop_append)
  have before: "filter ?same (deduplicate xs) = []"
    using fresh deduplicate_subset [of xs] by (fastforce simp: filter_empty_conv image_iff)
  have after: "filter ?same
      (dedup_loop (insert (fingerprint doc) (fingerprint ` fst ` set xs)) [] ys) = []"
    using dedup_loop_subset [of "insert (fingerprint doc) (fingerprint ` fst ` set xs)" ys]
    by (auto simp: filter_empty_conv)
  show "filter ?same (deduplicate (xs @ (doc, score) # ys)) = [(doc, score)]"
    by (simp add: split before after)
qed

text \<open>
  C2 at three pairs: the first and the third document differ only after their 100th
  character, so they have one fingerprint; the first is kept with its score 5, the
  third is dropped although its score 1 is lower.
\<close>

theorem deduplicate_first_occurrence_witness:
  "fingerprint (mk_doc (replicate 100 97 @ ascii ''y'')) \<notin> fingerprint ` fst ` set ([] :: scored list) \<and>
   fingerprint (mk_doc (replicate 100 97 @ ascii ''x'')) =
     fingerprint (mk_doc (replicate 100 97 @ ascii ''y'')) \<and>
   deduplicate ([(mk_doc (replicate 100 97 @ ascii ''x''), 5), (mk_doc (ascii ''b''), 2)] @
                [(mk_doc (replicate 100 97 @ ascii ''y''), 1)]) =
     [(mk_doc (replicate 100 97 @ ascii ''x''), 5), (mk_doc (ascii ''b''), 2)] \<and>
   filter (\<lambda>(d, s). fingerprint d = fingerprint (mk_doc (replicate 100 97 @ ascii ''x'')))
     (deduplicate ([] @ (mk_doc (replicate 100 97 @ ascii ''x''), 5) #
        [(mk_doc (ascii ''b''), 2), (mk_doc (replicate 100 97 @ ascii ''y''), 1)])) =
     [(mk_doc (replicate 100 97 @ ascii ''x''), 5)]"
proof -
  have same: "fingerprint (mk_doc (replicate 100 97 @ ascii ''x'')) =
     fingerprint (mk_doc (replicate 100 97 @ ascii ''y''))"
    by (simp add: fingerprint_def mk_doc_def)
  have other: "fingerprint (mk_doc (ascii ''b'')) \<noteq>
     fingerprint (mk_doc (replicate 100 97 @ ascii ''y''))"
  proof -
    have "length (fingerprint (mk_doc (ascii ''b''))) \<noteq>
      length (fingerprint (mk_doc (replicate 100 97 @ ascii ''y'')))"
      by (simp add: fingerprint_def mk_doc_def ascii_def)
    then show ?thesis by auto
  qed
  have two: "deduplicate [(mk_doc (replicate 100 97 @ ascii ''x''), 5), (mk_doc (ascii ''b''), 2)] =
     [(mk_doc (replicate 100 97 @ ascii ''x''), 5), (mk_doc (ascii ''b''), 2)]"
    using other by (simp add: deduplicate_def same)
  show ?thesis
    using deduplicate_first_occurrence
            [of "[(mk_doc (replicate 100 97 @ ascii ''x''), 5), (mk_doc (ascii ''b''), 2)]"
                "mk_doc (replicate 100 97 @ ascii ''y'')" 1 "[]"
                "[]"]
          deduplicate_first_occurrence
            [of "[]" "mk_doc (replicate 100 97 @ ascii ''x'')" 5 "[]"
                "[(mk_doc (ascii ''b''), 2), (mk_doc (replicate 100 97 @ ascii ''y''), 1)]"]
    by (simp add: same two)
qed

section \<open>Properties of the ranking and the retrieval\<close>

lemma sample_defs:
  "str_lower sample_pystr = ascii_lower" "str_isalnum sample_pystr = isalnum_ascii_thai"
  "str_isspace sample_pystr = isspace_ascii"
  by (simp_all add: sample_pystr_def)

lemmas retrieve_eval_defs =
  retrieve_documents_multilingual_def search_all_def adapted_k_def
  detect_language_def is_thai_related_query_def thai_indicators_def
  expand_query_with_translations_def THAI_SECURITY_KEYWORDS_def
  similarity_search_with_score_def world0_def three_docs_def
  rank_results_def filter_irrelevant_pages_def is_irrelevant_def irrelevant_indicators_def
  deduplicate_def fingerprint_def slice_to_def strip_def
  sample_defs ascii_lower_def isalnum_ascii_thai_def isspace_ascii_def is_thai_char_def
  ascii_def mk_doc_def

lemma filter_irrelevant_pages_subset:
  "set (filter_irrelevant_pages U rs q) \<subseteq> set rs"
  by (auto simp: filter_irrelevant_pages_def Let_def)

lemma slice_to_take: "\<exists>n. slice_to k xs = take n xs"
  by (auto simp: slice_to_def)

lemma slice_to_length: "0 \<le> k \<Longrightarrow> int (length (slice_to k xs)) \<le> k"
  by (simp add: slice_to_def)

lemma rank_results_length:
  "0 \<le> k \<Longrightarrow> int (length (rank_results U query k filter_pages results)) \<le> k"
  by (simp add: rank_results_def Let_def slice_to_length)

lemma rank_results_take:
  "\<exists>n. rank_results U query k filter_pages results =
     take n (sort_key snd (deduplicate
       (if filter_pages then filter_irrelevant_pages U results query else results)))"
  unfolding rank_results_def Let_def by (rule slice_to_take)

lemma rank_results_sorted:
  "sorted (map snd (rank_results U query k filter_pages results))"
proof -
  obtain n xs where "rank_results U query k filter_pages results = take n (sort_key snd xs)"
    using rank_results_take by blast
  then show ?thesis
    by (simp add: take_map [symmetric] sorted_wrt_take)
qed

lemma rank_results_subset:
  "set (rank_results U query k filter_pages results) \<subseteq> set results"
proof -
  let ?rs = "if filter_pages then filter_irrelevant_pages U results query else results"
  obtain n where n: "rank_results U query k filter_pages results =
      take n (sort_key snd (deduplicate ?rs))"
    using rank_results_take by blast
  have "set (take n (sort_key snd (deduplicate ?rs))) \<subseteq> set (deduplicate ?rs)"
    using set_take_subset [of n "sort_key snd (deduplicate ?rs)"] by simp
  also have "\<dots> \<subseteq> set ?rs"
    by (rule deduplicate_subset)
  also have "\<dots> \<subseteq> set results"
    using filter_irrelevant_pages_subset by auto
  finally show ?thesis
    by (simp only: n)
qed

lemma rank_results_distinct:
  "distinct (map (\<lambda>r. fingerprint (fst r)) (rank_results U query k filter_pages results))"
proof -
  let ?rs = "if filter_pages then filter_irrelevant_pages U results query else results"
  obtain n where n: "rank_results U query k filter_pages results =
      take n (sort_key snd (deduplicate ?rs))"
    using rank_results_take by blast
  have "distinct (map (\<lambda>r. fingerprint (fst r)) (deduplicate ?rs))"
    by (rule deduplicate_distinct)
  then have "distinct (map (\<lambda>r. fingerprint (fst r)) (sort_key snd (deduplicate ?rs)))"
    by (simp add: distinct_map)
  then have "distinct (take n (map (\<lambda>r. fingerprint (fst r)) (sort_key snd (deduplicate ?rs))))"
    by (rule distinct_take)
  then show ?thesis
    by (simp only: n take_map)
qed

text \<open>
  Claim C1, as the code has it. When the retrieval returns, with a requested \<open>k\<close> that
  is not negative it returns at most \<open>k\<close> documents, the original \<open>k\<close> and not the
  adapted one; for every \<open>k\<close> the fingerprints of the returned documents are pairwise
  distinct, and the documents are the first components of the ranked pairs, which are
  pairs of the search results and stand in non-decreasing order of their scores.
\<close>

theorem retrieve_bounded_distinct_sorted:
  assumes "retrieve_documents_multilingual U vs query k adaptive_k filter_pages w = (Inr docs, w')"
  shows "(0 \<le> k \<longrightarrow> int (length docs) \<le> k) \<and>
         distinct (map fingerprint docs) \<and>
         (\<exists>results ranked.
            search_all U vs query k adaptive_k w = (Inr results, w') \<and>
            ranked = rank_results U query k filter_pages results \<and>
            docs = map fst ranked \<and> set ranked \<subseteq> set results \<and>
            sorted (map snd ranked))"
proof -
  obtain results where
    all: "search_all U vs query k adaptive_k w = (Inr results, w')" and
    docs: "docs = map fst (rank_results U query k filter_pages results)"
    using assms
    by (auto simp: retrieve_documents_multilingual_def Let_def split: prod.splits sum.splits)
  have "distinct (map fingerprint docs)"
    using rank_results_distinct [of U query k filter_pages results]
    by (simp add: docs comp_def)
  moreover have "0 \<le> k \<longrightarrow> int (length docs) \<le> k"
    using rank_results_length [of k U query filter_pages results] by (simp add: docs)
  ultimately show ?thesis
    using all docs rank_results_subset [of U query k filter_pages results]
      rank_results_sorted [of U query k filter_pages results]
    by simp
qed

text \<open>
  C1 at the query \<open>thai\<close> with \<open>k = 2\<close>: the one search asks for seven documents and
  gets three, of which the two with the lowest scores are returned, the lowest first.
\<close>

theorem retrieve_bounded_distinct_sorted_witness:
  "retrieve_documents_multilingual sample_pystr demo_store (ascii ''thai'') 2 True True world0 =
     (Inr [mk_doc (ascii ''alpha''), mk_doc (ascii ''beta'')],
      \<lparr>store = (), calls = [(ascii ''thai'', 7)], warnings = []\<rparr>) \<and>
   (0::int) \<le> 2 \<and>
   int (length [mk_doc (ascii ''alpha''), mk_doc (ascii ''beta'')]) \<le> 2 \<and>
   distinct (map fingerprint [mk_doc (ascii ''alpha''), mk_doc (ascii ''beta'')])"
proof -
  have run: "retrieve_documents_multilingual sample_pystr demo_store (ascii ''thai'') 2 True True
      world0 =
     (Inr [mk_doc (ascii ''alpha''), mk_doc (ascii ''beta'')],
      \<lparr>store = (), calls = [(ascii ''thai'', 7)], warnings = []\<rparr>)"
    by (simp add: retrieve_eval_defs demo_store_def)
  show ?thesis
    using run retrieve_bounded_distinct_sorted [OF run] by simp
qed



text \<open>
  C1 for every \<open>k\<close> fails at \<open>k = -1\<close>: the search asks for \<open>min (-1 + 5) 15 = 4\<close>
  documents and gets three, and the slice \<open>unique_results[:-1]\<close> drops the last one
  only, so two documents are returned.
\<close>

theorem retrieve_negative_k_counterexample:
  "retrieve_documents_multilingual sample_pystr demo_store (ascii ''thai'') (- 1) True True world0 =
     (Inr [mk_doc (ascii ''alpha''), mk_doc (ascii ''beta'')],
      \<lparr>store = (), calls = [(ascii ''thai'', 4)], warnings = []\<rparr>) \<and>
   \<not> int (length [mk_doc (ascii ''alpha''), mk_doc (ascii ''beta'')]) \<le> - 1"
  by (simp add: retrieve_eval_defs demo_store_def)

section \<open>Properties of the search calls\<close>

lemma similarity_search_with_score_world:
  assumes "similarity_search_with_score vs q k w = (r, w1)"
  shows "w1 = w\<lparr>store := snd (vs (store w) q k), calls := calls w @ [(q, k)]\<rparr> \<and>
         r = fst (vs (store w) q k)"
  using assms by (auto simp: similarity_search_with_score_def split: prod.splits)

lemma search_expanded_calls:
  assumes "search_expanded U vs query k qs results w = (r, w')"
  shows "\<exists>n. calls w' =
           calls w @ map (\<lambda>q. (q, k)) (take n (filter (\<lambda>e. strip U e \<noteq> strip U query) qs)) \<and>
         ((\<exists>rs. r = Inr rs) \<longrightarrow>
            calls w' = calls w @ map (\<lambda>q. (q, k)) (filter (\<lambda>e. strip U e \<noteq> strip U query) qs))"
  using assms
proof (induction qs arbitrary: results w)
  case Nil
  then show ?case by simp
next
  case (Cons eq rest)
  let ?keep = "\<lambda>e. strip U e \<noteq> strip U query"
  show ?case
  proof (cases "?keep eq")
    case False
    with Cons.prems have "search_expanded U vs query k rest results w = (r, w')"
      by simp
    from Cons.IH [OF this] False show ?thesis
      by simp
  next
    case True
    obtain r1 w1 where call: "similarity_search_with_score vs eq k w = (r1, w1)"
      by (cases "similarity_search_with_score vs eq k w")
    then have w1: "calls w1 = calls w @ [(eq, k)]"
      by (auto dest: similarity_search_with_score_world)
    show ?thesis
    proof (cases r1)
      case (Inr additional)
      with True call Cons.prems
      have "search_expanded U vs query k rest (results @ additional) w1 = (r, w')"
        by simp
      from Cons.IH [OF this] obtain n where
        n: "calls w' = calls w1 @ map (\<lambda>q. (q, k)) (take n (filter ?keep rest))" and
        full: "(\<exists>rs. r = Inr rs) \<longrightarrow> calls w' = calls w1 @ map (\<lambda>q. (q, k)) (filter ?keep rest)"
        by blast
      have "calls w' = calls w @ map (\<lambda>q. (q, k)) (take (Suc n) (filter ?keep (eq # rest)))"
        using n w1 True by simp
      moreover have "(\<exists>rs. r = Inr rs) \<longrightarrow>
          calls w' = calls w @ map (\<lambda>q. (q, k)) (filter ?keep (eq # rest))"
        using full w1 True by simp
      ultimately show ?thesis by blast
    next
      case (Inl e)
      show ?thesis
      proof (cases "caught_by_except_Exception e")
        case caught: True
        with Inl True call Cons.prems
        have "search_expanded U vs query k rest results (w1\<lparr>warnings := warnings w1 @ [e]\<rparr>) = (r, w')"
          by simp
        from Cons.IH [OF this] obtain n where
          n: "calls w' = calls w1 @ map (\<lambda>q. (q, k)) (take n (filter ?keep rest))" and
          full: "(\<exists>rs. r = Inr rs) \<longrightarrow> calls w' = calls w1 @ map (\<lambda>q. (q, k)) (filter ?keep rest)"
          by auto
        have "calls w' = calls w @ map (\<lambda>q. (q, k)) (take (Suc n) (filter ?keep (eq # rest)))"
          using n w1 True by simp
        moreover have "(\<exists>rs. r = Inr rs) \<longrightarrow>
            calls w' = calls w @ map (\<lambda>q. (q, k)) (filter ?keep (eq # rest))"
          using full w1 True by simp
        ultimately show ?thesis by blast
      next
        case False
        with Inl True call Cons.prems have "r = Inl e" "w' = w1"
          by simp_all
        then have "calls w' = calls w @ map (\<lambda>q. (q, k)) (take (Suc 0) (filter ?keep (eq # rest)))"
          using w1 True by simp
        moreover have "\<not> (\<exists>rs. r = Inr rs)"
          using \<open>r = Inl e\<close> by simp
        ultimately show ?thesis by blast
      qed
    qed
  qed
qed

lemma search_expanded_error:
  assumes "search_expanded U vs query k qs results w = (Inl e, w')"
  shows "\<exists>s q kk. fst (vs s q kk) = Inl e"
  using assms
proof (induction qs arbitrary: results w)
  case Nil
  then show ?case by simp
next
  case (Cons eq rest)
  show ?case
  proof (cases "strip U eq \<noteq> strip U query")
    case False
    with Cons.prems Cons.IH show ?thesis
      by simp
  next
    case True
    obtain r1 w1 where call: "similarity_search_with_score vs eq k w = (r1, w1)"
      by (cases "similarity_search_with_score vs eq k w")
    then have r1: "r1 = fst (vs (store w) eq k)"
      by (auto dest: similarity_search_with_score_world)
    show ?thesis
    proof (cases r1)
      case (Inr additional)
      with True call Cons.prems Cons.IH show ?thesis
        by simp
    next
      case (Inl e1)
      show ?thesis
      proof (cases "caught_by_except_Exception e1")
        case caught: True
        with Inl True call Cons.prems Cons.IH show ?thesis
          by simp
      next
        case False
        with Inl True call Cons.prems have "e = e1"
          by simp
        with Inl r1 show ?thesis
          by metis
      qed
    qed
  qed
qed

lemma search_all_calls:
  assumes "search_all U vs query k adaptive_k w = (r, w')"
  shows "\<exists>n. calls w' =
           calls w @ map (\<lambda>q. (q, adapted_k U query k adaptive_k))
                        (take (Suc n) (query # variants U query)) \<and>
         ((\<exists>rs. r = Inr rs) \<longrightarrow>
            calls w' = calls w @ map (\<lambda>q. (q, adapted_k U query k adaptive_k))
                                    (query # variants U query))"
proof -
  let ?k = "adapted_k U query k adaptive_k"
  obtain r1 w1 where call: "similarity_search_with_score vs query ?k w = (r1, w1)"
    by (cases "similarity_search_with_score vs query ?k w")
  then have w1: "calls w1 = calls w @ [(query, ?k)]"
    by (auto dest: similarity_search_with_score_world)
  show ?thesis
  proof (cases r1)
    case (Inl e)
    with call assms have "r = Inl e" "w' = w1"
      by (simp_all add: search_all_def)
    then have "calls w' = calls w @ map (\<lambda>q. (q, ?k)) (take (Suc 0) (query # variants U query))"
      and "\<not> (\<exists>rs. r = Inr rs)"
      using w1 by simp_all
    then show ?thesis by blast
  next
    case (Inr results)
    with call assms have "search_expanded U vs query ?k
        (drop 1 (expand_query_with_translations U query (detect_language U query))) results w1
        = (r, w')"
      by (simp add: search_all_def)
    from search_expanded_calls [OF this] obtain n where
      n: "calls w' = calls w1 @ map (\<lambda>q. (q, ?k)) (take n (variants U query))" and
      full: "(\<exists>rs. r = Inr rs) \<longrightarrow> calls w' = calls w1 @ map (\<lambda>q. (q, ?k)) (variants U query)"
      unfolding variants_def by blast
    have "calls w' = calls w @ map (\<lambda>q. (q, ?k)) (take (Suc n) (query # variants U query))"
      using n w1 by simp
    moreover have "(\<exists>rs. r = Inr rs) \<longrightarrow>
        calls w' = calls w @ map (\<lambda>q. (q, ?k)) (query # variants U query)"
      using full w1 by simp
    ultimately show ?thesis by blast
  qed
qed

lemma search_all_error:
  assumes "search_all U vs query k adaptive_k w = (Inl e, w')"
  shows "\<exists>s q kk. fst (vs s q kk) = Inl e"
proof -
  let ?k = "adapted_k U query k adaptive_k"
  obtain r1 w1 where call: "similarity_search_with_score vs query ?k w = (r1, w1)"
    by (cases "similarity_search_with_score vs query ?k w")
  then have r1: "r1 = fst (vs (store w) query ?k)"
    by (auto dest: similarity_search_with_score_world)
  show ?thesis
  proof (cases r1)
    case (Inl e1)
    with call assms have "e = e1"
      by (simp add: search_all_def)
    with Inl r1 show ?thesis by metis
  next
    case (Inr results)
    with call assms have "search_expanded U vs query ?k
        (drop 1 (expand_query_with_translations U query (detect_language U query))) results w1
        = (Inl e, w')"
      by (simp add: search_all_def)
    then show ?thesis by (rule search_expanded_error)
  qed
qed

lemma retrieve_search_all:
  "retrieve_documents_multilingual U vs query k adaptive_k filter_pages w = (r, w') \<Longrightarrow>
   \<exists>r0. search_all U vs query k adaptive_k w = (r0, w') \<and>
        r = (case r0 of Inl e \<Rightarrow> Inl e
             | Inr results \<Rightarrow> Inr (map fst (rank_results U query k filter_pages results)))"
  by (auto simp: retrieve_documents_multilingual_def Let_def split: prod.splits sum.splits)

text \<open>
  Claim C3, as the code has it. Let \<open>k'\<close> be \<open>min (k + 5) 15\<close> when adaptive k is
  enabled and the detected language is \<open>th\<close> or the lowered query contains one of the
  Thai-content markers, and \<open>k\<close> otherwise. Every search call of a retrieval requests
  \<open>k'\<close>: the calls are made for the original query first and then for the expansion
  variants in their order, all with \<open>k'\<close>, up to the first call whose failure ends
  the retrieval; a retrieval that returns has made all of them. The number of
  documents returned is bounded by the original \<open>k\<close> when \<open>k\<close> is not negative.
\<close>

theorem search_calls_request_adapted_k:
  assumes "retrieve_documents_multilingual U vs query k adaptive_k filter_pages w = (r, w')"
    and "k' = (if adaptive_k \<and> (detect_language U query = ''th'' \<or> is_thai_related_query U query)
               then min (k + 5) 15 else k)"
  shows "(\<exists>n. calls w' = calls w @ map (\<lambda>q. (q, k')) (take (Suc n) (query # variants U query))) \<and>
         (\<forall>docs. r = Inr docs \<longrightarrow>
            calls w' = calls w @ map (\<lambda>q. (q, k')) (query # variants U query) \<and>
            (0 \<le> k \<longrightarrow> int (length docs) \<le> k))"
proof -
  have k': "k' = adapted_k U query k adaptive_k"
    using assms(2) by (simp add: adapted_k_def)
  obtain r0 where all: "search_all U vs query k adaptive_k w = (r0, w')"
    and r: "r = (case r0 of Inl e \<Rightarrow> Inl e
             | Inr results \<Rightarrow> Inr (map fst (rank_results U query k filter_pages results)))"
    using retrieve_search_all [OF assms(1)] by blast
  from search_all_calls [OF all] obtain n where
    n: "calls w' = calls w @ map (\<lambda>q. (q, k')) (take (Suc n) (query # variants U query))" and
    full: "(\<exists>rs. r0 = Inr rs) \<longrightarrow>
        calls w' = calls w @ map (\<lambda>q. (q, k')) (query # variants U query)"
    unfolding k' by blast
  have "\<forall>docs. r = Inr docs \<longrightarrow>
            calls w' = calls w @ map (\<lambda>q. (q, k')) (query # variants U query) \<and>
            (0 \<le> k \<longrightarrow> int (length docs) \<le> k)"
  proof (intro allI impI)
    fix docs
    assume "r = Inr docs"
    with r obtain results where r0: "r0 = Inr results"
      and docs: "docs = map fst (rank_results U query k filter_pages results)"
      by (cases r0) simp_all
    show "calls w' = calls w @ map (\<lambda>q. (q, k')) (query # variants U query) \<and>
            (0 \<le> k \<longrightarrow> int (length docs) \<le> k)"
      using full r0 docs rank_results_length [of k U query filter_pages results] by simp
  qed
  with n show ?thesis by blast
qed

text \<open>
  Claim C7, as the code has it. The retrieval does not look at the query before it
  searches: for every query, an empty or a blank one included, the first call it makes
  is the search for the query itself, and it fails only with an error that a call of
  the store has raised. No validation error exists.
\<close>

theorem retrieve_searches_every_query:
  assumes "retrieve_documents_multilingual U vs query k adaptive_k filter_pages w = (r, w')"
  shows "(\<exists>more. calls w' = calls w @ (query, adapted_k U query k adaptive_k) # more) \<and>
         (\<forall>e. r = Inl e \<longrightarrow> (\<exists>s q kk. fst (vs s q kk) = Inl e))"
proof -
  obtain r0 where all: "search_all U vs query k adaptive_k w = (r0, w')"
    and r: "r = (case r0 of Inl e \<Rightarrow> Inl e
             | Inr results \<Rightarrow> Inr (map fst (rank_results U query k filter_pages results)))"
    using retrieve_search_all [OF assms(1)] by blast
  from search_all_calls [OF all] obtain n where
    "calls w' = calls w @ map (\<lambda>q. (q, adapted_k U query k adaptive_k))
        (take (Suc n) (query # variants U query))"
    by blast
  then have "\<exists>more. calls w' = calls w @ (query, adapted_k U query k adaptive_k) # more"
    by simp
  moreover have "\<forall>e. r = Inl e \<longrightarrow> (\<exists>s q kk. fst (vs s q kk) = Inl e)"
  proof (intro allI impI)
    fix e
    assume "r = Inl e"
    with r have "r0 = Inl e"
      by (cases r0) simp_all
    with all show "\<exists>s q kk. fst (vs s q kk) = Inl e"
      using search_all_error by metis
  qed
  ultimately show ?thesis by blast
qed

lemma search_expanded_no_fail:
  assumes "\<forall>s q kk. fst (vs s q kk) \<noteq> Inl BaseException"
  shows "\<exists>rs w'. search_expanded U vs query k qs results w = (Inr (results @ rs), w')"
proof (induction qs arbitrary: results w)
  case Nil
  show ?case by simp
next
  case (Cons eq rest)
  show ?case
  proof (cases "strip U eq \<noteq> strip U query")
    case False
    with Cons.IH [of results w] show ?thesis
      by simp
  next
    case True
    obtain r1 w1 where call: "similarity_search_with_score vs eq k w = (r1, w1)"
      by (cases "similarity_search_with_score vs eq k w")
    then have r1: "r1 = fst (vs (store w) eq k)"
      by (auto dest: similarity_search_with_score_world)
    show ?thesis
    proof (cases r1)
      case (Inr additional)
      from Cons.IH [of "results @ additional" w1] obtain rs w' where
        "search_expanded U vs query k rest (results @ additional) w1 =
           (Inr ((results @ additional) @ rs), w')"
        by blast
      with Inr True call
      have "search_expanded U vs query k (eq # rest) results w =
          (Inr (results @ (additional @ rs)), w')"
        by simp
      then show ?thesis by blast
    next
      case (Inl e)
      with r1 assms have "caught_by_except_Exception e"
        by (metis caught_by_except_Exception_def)
      with Inl True call Cons.IH [of results "w1\<lparr>warnings := warnings w1 @ [e]\<rparr>"]
      show ?thesis
        by simp
    qed
  qed
qed

text \<open>
  Claim C8, as the code has it. In the loop over the expansion variants a search that
  raises an exception deriving from \<open>Exception\<close> is recorded with a warning and the
  loop goes on with the remaining variants and the results collected so far; if the
  store raises nothing else, the loop returns, and its result starts with the results
  it was given. The search for the original query stands outside the handler: when it
  raises, the retrieval fails with that error after this one call. When it answers and
  the store raises nothing but exceptions deriving from \<open>Exception\<close>, the retrieval
  returns.
\<close>

theorem expansion_failure_skipped:
  "(strip U eq \<noteq> strip U query \<and> vs (store w) eq k = (Inl e, s') \<and>
    caught_by_except_Exception e \<longrightarrow>
      search_expanded U vs query k (eq # rest) results w =
        search_expanded U vs query k rest results
          (w\<lparr>store := s', calls := calls w @ [(eq, k)], warnings := warnings w @ [e]\<rparr>)) \<and>
   ((\<forall>s q kk. fst (vs s q kk) \<noteq> Inl BaseException) \<longrightarrow>
      (\<exists>rs w'. search_expanded U vs query k qs results w = (Inr (results @ rs), w'))) \<and>
   (vs (store w) query (adapted_k U query k adaptive_k) = (Inl e, s') \<longrightarrow>
      retrieve_documents_multilingual U vs query k adaptive_k filter_pages w =
        (Inl e, w\<lparr>store := s', calls := calls w @ [(query, adapted_k U query k adaptive_k)]\<rparr>)) \<and>
   ((\<forall>s q kk. fst (vs s q kk) \<noteq> Inl BaseException) \<and>
    vs (store w) query (adapted_k U query k adaptive_k) = (Inr rs0, s') \<longrightarrow>
      (\<exists>docs w'. retrieve_documents_multilingual U vs query k adaptive_k filter_pages w =
         (Inr docs, w')))"
proof (intro conjI impI)
  assume "strip U eq \<noteq> strip U query \<and> vs (store w) eq k = (Inl e, s') \<and>
    caught_by_except_Exception e"
  then show "search_expanded U vs query k (eq # rest) results w =
        search_expanded U vs query k rest results
          (w\<lparr>store := s', calls := calls w @ [(eq, k)], warnings := warnings w @ [e]\<rparr>)"
    by (simp add: similarity_search_with_score_def)
next
  assume "\<forall>s q kk. fst (vs s q kk) \<noteq> Inl BaseException"
  then show "\<exists>rs w'. search_expanded U vs query k qs results w = (Inr (results @ rs), w')"
    by (rule search_expanded_no_fail)
next
  assume "vs (store w) query (adapted_k U query k adaptive_k) = (Inl e, s')"
  then show "retrieve_documents_multilingual U vs query k adaptive_k filter_pages w =
        (Inl e, w\<lparr>store := s', calls := calls w @ [(query, adapted_k U query k adaptive_k)]\<rparr>)"
    by (simp add: retrieve_documents_multilingual_def search_all_def
        similarity_search_with_score_def)
next
  assume a: "(\<forall>s q kk. fst (vs s q kk) \<noteq> Inl BaseException) \<and>
    vs (store w) query (adapted_k U query k adaptive_k) = (Inr rs0, s')"
  let ?w1 = "w\<lparr>store := s', calls := calls w @ [(query, adapted_k U query k adaptive_k)]\<rparr>"
  from a search_expanded_no_fail [of vs U query "adapted_k U query k adaptive_k"
      "drop 1 (expand_query_with_translations U query (detect_language U query))" rs0 ?w1]
  obtain rs w' where "search_expanded U vs query (adapted_k U query k adaptive_k)
      (drop 1 (expand_query_with_translations U query (detect_language U query))) rs0 ?w1 =
        (Inr (rs0 @ rs), w')"
    by blast
  with a have "retrieve_documents_multilingual U vs query k adaptive_k filter_pages w =
      (Inr (map fst (rank_results U query k filter_pages (rs0 @ rs))), w')"
    by (simp add: retrieve_documents_multilingual_def search_all_def
        similarity_search_with_score_def)
  then show "\<exists>docs w'. retrieve_documents_multilingual U vs query k adaptive_k filter_pages w =
         (Inr docs, w')"
    by blast
qed


text \<open>
  C3 at the English query \<open>Thailand web security\<close> with \<open>k = 3\<close>: the marker
  \<open>thailand\<close> raises \<open>k\<close> to 8 for the three searches, of the query and of its two
  variants, and three documents are returned.
\<close>

theorem search_calls_request_adapted_k_witness:
  "retrieve_documents_multilingual sample_pystr demo_store (ascii ''Thailand web security'') 3
     True True world0 =
     (Inr [mk_doc (ascii ''alpha''), mk_doc (ascii ''beta''), mk_doc (ascii ''gamma'')],
      \<lparr>store = (),
       calls = [(ascii ''Thailand web security'', 8),
                (ascii ''Thailand web security '' @ th_web_security, 8),
                (th_web_security, 8)],
       warnings = []\<rparr>) \<and>
   is_thai_related_query sample_pystr (ascii ''Thailand web security'') \<and>
   variants sample_pystr (ascii ''Thailand web security'') =
     [ascii ''Thailand web security '' @ th_web_security, th_web_security] \<and>
   (0::int) \<le> 3 \<and>
   int (length [mk_doc (ascii ''alpha''), mk_doc (ascii ''beta''), mk_doc (ascii ''gamma'')]) \<le> 3"
proof -
  have run: "retrieve_documents_multilingual sample_pystr demo_store
      (ascii ''Thailand web security'') 3 True True world0 =
     (Inr [mk_doc (ascii ''alpha''), mk_doc (ascii ''beta''), mk_doc (ascii ''gamma'')],
      \<lparr>store = (),
       calls = [(ascii ''Thailand web security'', 8),
                (ascii ''Thailand web security '' @ th_web_security, 8),
                (th_web_security, 8)],
       warnings = []\<rparr>)"
    by (simp add: retrieve_eval_defs demo_store_def th_web_security_def)
  have rel: "is_thai_related_query sample_pystr (ascii ''Thailand web security'')"
    by (simp add: retrieve_eval_defs)
  have k': "(8::int) = (if True \<and> (detect_language sample_pystr (ascii ''Thailand web security'') = ''th'' \<or>
        is_thai_related_query sample_pystr (ascii ''Thailand web security''))
      then min (3 + 5) 15 else 3)"
    using rel by simp
  have vars: "variants sample_pystr (ascii ''Thailand web security'') =
     [ascii ''Thailand web security '' @ th_web_security, th_web_security]"
    by (simp add: variants_def retrieve_eval_defs th_web_security_def)
  show ?thesis
    using run rel vars search_calls_request_adapted_k [OF run k'] by simp
qed

text \<open>
  C3 for every \<open>k\<close> fails at \<open>k = -2\<close> and the query \<open>ncsa\<close>: the search asks for
  \<open>min (-2 + 5) 15 = 3\<close> documents, and the slice \<open>unique_results[:-2]\<close> returns
  one, which is more than \<open>-2\<close>.
\<close>

theorem search_calls_negative_k_counterexample:
  "retrieve_documents_multilingual sample_pystr demo_store (ascii ''ncsa'') (- 2) True True world0 =
     (Inr [mk_doc (ascii ''alpha'')],
      \<lparr>store = (), calls = [(ascii ''ncsa'', 3)], warnings = []\<rparr>) \<and>
   \<not> int (length [mk_doc (ascii ''alpha'')]) \<le> - 2"
  by (simp add: retrieve_eval_defs demo_store_def)

text \<open>C7 at the empty query: it is searched for, and the store's answer is returned.\<close>

theorem retrieve_searches_every_query_witness:
  "retrieve_documents_multilingual sample_pystr demo_store [] 3 True True world0 =
     (Inr [mk_doc (ascii ''alpha''), mk_doc (ascii ''beta''), mk_doc (ascii ''gamma'')],
      \<lparr>store = (), calls = [([], 3)], warnings = []\<rparr>) \<and>
   adapted_k sample_pystr [] 3 True = 3"
proof -
  have run: "retrieve_documents_multilingual sample_pystr demo_store [] 3 True True world0 =
     (Inr [mk_doc (ascii ''alpha''), mk_doc (ascii ''beta''), mk_doc (ascii ''gamma'')],
      \<lparr>store = (), calls = [([], 3)], warnings = []\<rparr>)"
    by (simp add: retrieve_eval_defs demo_store_def)
  show ?thesis
    using run retrieve_searches_every_query [OF run] by (simp add: world0_def)
qed

text \<open>
  C7 as stated fails at a query of two spaces: it is blank, it is handed to the index,
  and the retrieval returns documents instead of rejecting it.
\<close>

theorem blank_query_searched_counterexample:
  "strip sample_pystr (ascii ''  '') = [] \<and>
   retrieve_documents_multilingual sample_pystr demo_store (ascii ''  '') 3 True True world0 =
     (Inr [mk_doc (ascii ''alpha''), mk_doc (ascii ''beta''), mk_doc (ascii ''gamma'')],
      \<lparr>store = (), calls = [(ascii ''  '', 3)], warnings = []\<rparr>)"
  by (simp add: retrieve_eval_defs demo_store_def)

text \<open>
  C8 as stated fails for the search of the original query: with a store whose searches
  raise, the first call's exception ends the retrieval, without a warning.
\<close>

theorem original_search_failure_counterexample:
  "retrieve_documents_multilingual sample_pystr failing_store (ascii ''audit'') 3 True True world0 =
     (Inl Exception, \<lparr>store = (), calls = [(ascii ''audit'', 3)], warnings = []\<rparr>)"
  by (simp add: retrieve_eval_defs failing_store_def)


text \<open>
  C8 at the query \<open>audit\<close> and a store that raises on its second call: the search of
  the first variant fails and is skipped with a warning, the search of the second
  variant is made, and the retrieval returns.
\<close>

theorem expansion_failure_skipped_witness:
  "retrieve_documents_multilingual sample_pystr flaky_store (ascii ''audit'') 3 True True
     \<lparr>store = 0, calls = [], warnings = []\<rparr> =
     (Inr [mk_doc (ascii ''alpha''), mk_doc (ascii ''beta''), mk_doc (ascii ''gamma'')],
      \<lparr>store = 3,
       calls = [(ascii ''audit'', 3), (ascii ''audit '' @ th_audit, 3), (th_audit, 3)],
       warnings = [Exception]\<rparr>) \<and>
   strip sample_pystr (ascii ''audit '' @ th_audit) \<noteq> strip sample_pystr (ascii ''audit'') \<and>
   flaky_store 1 (ascii ''audit '' @ th_audit) 3 = (Inl Exception, 2) \<and>
   caught_by_except_Exception Exception \<and>
   (\<forall>s q kk. fst (flaky_store s q kk) \<noteq> Inl BaseException) \<and>
   search_expanded sample_pystr flaky_store (ascii ''audit'') 3
       [ascii ''audit '' @ th_audit, th_audit] three_docs
       \<lparr>store = 1, calls = [(ascii ''audit'', 3)], warnings = []\<rparr> =
     search_expanded sample_pystr flaky_store (ascii ''audit'') 3 [th_audit] three_docs
       \<lparr>store = 2, calls = [(ascii ''audit'', 3), (ascii ''audit '' @ th_audit, 3)],
        warnings = [Exception]\<rparr>"
proof -
  have run: "retrieve_documents_multilingual sample_pystr flaky_store (ascii ''audit'') 3 True True
     \<lparr>store = 0, calls = [], warnings = []\<rparr> =
     (Inr [mk_doc (ascii ''alpha''), mk_doc (ascii ''beta''), mk_doc (ascii ''gamma'')],
      \<lparr>store = 3,
       calls = [(ascii ''audit'', 3), (ascii ''audit '' @ th_audit, 3), (th_audit, 3)],
       warnings = [Exception]\<rparr>)"
    by (simp add: retrieve_eval_defs flaky_store_def th_audit_def caught_by_except_Exception_def)
  have differ: "strip sample_pystr (ascii ''audit '' @ th_audit) \<noteq> strip sample_pystr (ascii ''audit'')"
    by (simp add: retrieve_eval_defs th_audit_def)
  have raises: "flaky_store 1 (ascii ''audit '' @ th_audit) 3 = (Inl Exception, 2)"
    by (simp add: flaky_store_def)
  have caught: "caught_by_except_Exception Exception"
    by (simp add: caught_by_except_Exception_def)
  have never: "\<forall>s q kk. fst (flaky_store s q kk) \<noteq> Inl BaseException"
    by (simp add: flaky_store_def)
  show ?thesis
    using run differ raises caught never
      expansion_failure_skipped [of sample_pystr "ascii ''audit '' @ th_audit" "ascii ''audit''"
        flaky_store "\<lparr>store = 1, calls = [(ascii ''audit'', 3)], warnings = []\<rparr>" 3 Exception 2
        "[th_audit]" three_docs]
    by simp
qed

section \<open>Properties of the query expansion\<close>

lemma starts_with_subset: "starts_with p s \<Longrightarrow> set p \<subseteq> set s"
  by (induction p s rule: starts_with.induct) auto

lemma str_contains_subset: "str_contains p s \<Longrightarrow> set p \<subseteq> set s"
proof (induction s)
  case Nil
  then show ?case by simp
next
  case (Cons c cs)
  from Cons.prems have "starts_with p (c # cs) \<or> str_contains p cs"
    by simp
  then show ?case
  proof
    assume "starts_with p (c # cs)"
    then show ?thesis by (rule starts_with_subset)
  next
    assume "str_contains p cs"
    then have "set p \<subseteq> set cs" by (rule Cons.IH)
    then show ?thesis by auto
  qed
qed

lemma set_str_join: "set (str_join sep xs) \<subseteq> set sep \<union> \<Union> (set ` set xs)"
  by (induction sep xs rule: str_join.induct) auto

lemma foldl_append_matches:
  "foldl (\<lambda>e (a, b). if P a then e @ sep @ b else e) q0 kws =
     q0 @ concat (map (\<lambda>(a, b). sep @ b) (filter (\<lambda>(a, b). P a) kws))"
  by (induction kws arbitrary: q0) (auto split: prod.splits)

lemma foldl_collect_matches:
  "foldl (\<lambda>acc (a, b). if P a then acc @ [b] else acc) acc0 kws =
     acc0 @ map snd (filter (\<lambda>(a, b). P a) kws)"
  by (induction kws arbitrary: acc0) (auto split: prod.splits)

lemma concat_pieces_nonempty:
  "sep \<noteq> [] \<Longrightarrow> (concat (map (\<lambda>(a, b). sep @ b) ms) = []) = (ms = [])"
  by (cases ms) (auto split: prod.splits)

lemma glossary_terms:
  "\<forall>(en_term, th_term) \<in> set THAI_SECURITY_KEYWORDS.
     (\<forall>c \<in> set en_term. c = 32 \<or> (97 \<le> c \<and> c \<le> 122)) \<and>
     (\<exists>c \<in> set en_term. 97 \<le> c \<and> c \<le> 122) \<and>
     (\<forall>c \<in> set th_term. is_thai_char c)"
  by (simp add: THAI_SECURITY_KEYWORDS_def ascii_def is_thai_char_def)

lemma thai_only_differs:
  assumes U: "lower_keeps_uncased U"
    and ms: "ms = filter (\<lambda>(en_term, th_term). str_contains (str_lower U en_term) (str_lower U query))
                  THAI_SECURITY_KEYWORDS"
    and ne: "ms \<noteq> []"
  shows "str_join (ascii '' '') (map snd ms) \<noteq> query"
proof
  assume eq: "str_join (ascii '' '') (map snd ms) = query"
  have thai: "\<forall>c \<in> set query. c = 32 \<or> is_thai_char c"
  proof
    fix c
    assume "c \<in> set query"
    then have "c \<in> set (ascii '' '') \<union> \<Union> (set ` set (map snd ms))"
      using set_str_join [of "ascii '' ''" "map snd ms"] eq by auto
    then show "c = 32 \<or> is_thai_char c"
      using glossary_terms by (fastforce simp: ascii_def ms)
  qed
  then have low: "str_lower U query = query"
    using U by (auto simp: lower_keeps_uncased_def)
  from ne obtain en_term th_term where m: "(en_term, th_term) \<in> set ms"
    by (cases ms) auto
  then have inG: "(en_term, th_term) \<in> set THAI_SECURITY_KEYWORDS"
    and hit: "str_contains (str_lower U en_term) (str_lower U query)"
    by (auto simp: ms)
  have en: "\<forall>c \<in> set en_term. c = 32 \<or> (97 \<le> c \<and> c \<le> 122)"
    and letter: "\<exists>c \<in> set en_term. 97 \<le> c \<and> c \<le> 122"
    using glossary_terms inG by auto
  have "str_lower U en_term = en_term"
    using U en by (auto simp: lower_keeps_uncased_def)
  with hit low have "set en_term \<subseteq> set query"
    by (auto dest: str_contains_subset)
  with letter obtain c where "c \<in> set query" "97 \<le> c" "c \<le> 122"
    by blast
  with thai show False
    by (fastforce simp: is_thai_char_def)
qed

text \<open>
  Claim C6. For every query and every language value the expansion list starts with the
  query as it is. The query stands nowhere else in the list, given that the runtime's
  \<open>lower\<close> returns a string of spaces, lower-case ASCII letters and Thai characters
  as it is. When no glossary term matches (for \<open>en\<close>: no lowered English term lies in
  the lowered query; for \<open>th\<close>: no Thai term lies in the query) the list is the query
  alone, as it is for every other language value.
\<close>

theorem expand_original_first_once:
  "(\<exists>rest. expand_query_with_translations U query lang = query # rest \<and>
           (lower_keeps_uncased U \<longrightarrow> query \<notin> set rest)) \<and>
   ((lang = ''en'' \<longrightarrow>
       (\<forall>(en_term, th_term) \<in> set THAI_SECURITY_KEYWORDS.
          \<not> str_contains (str_lower U en_term) (str_lower U query))) \<and>
    (lang = ''th'' \<longrightarrow>
       (\<forall>(th_term, en_term) \<in> set ENGLISH_SECURITY_KEYWORDS. \<not> str_contains th_term query))
    \<longrightarrow> expand_query_with_translations U query lang = [query])"
proof -
  let ?P = "\<lambda>en_term. str_contains (str_lower U en_term) (str_lower U query)"
  let ?Q = "\<lambda>th_term. str_contains th_term query"
  let ?ms = "filter (\<lambda>(a, b). ?P a) THAI_SECURITY_KEYWORDS"
  let ?ns = "filter (\<lambda>(a, b). ?Q a) ENGLISH_SECURITY_KEYWORDS"
  let ?ext = "\<lambda>xs. query @ concat (map (\<lambda>(a, b). ascii '' '' @ b) xs)"
  have sep: "ascii '' '' \<noteq> ([] :: ustring)"
    by (simp add: ascii_def)
  have ext: "(?ext xs \<noteq> query) = (xs \<noteq> [])" for xs :: "(ustring \<times> ustring) list"
    using concat_pieces_nonempty [OF sep, of xs] by (simp del: concat_eq_Nil_conv)
  have en: "expand_query_with_translations U query ''en'' =
      (if ?ms = [] then [query]
       else [query, ?ext ?ms, str_join (ascii '' '') (map snd ?ms)])"
    using ext [of ?ms]
    by (simp add: expand_query_with_translations_def Let_def foldl_append_matches
        foldl_collect_matches)
  have th: "expand_query_with_translations U query ''th'' =
      (if ?ns = [] then [query] else [query, ?ext ?ns])"
    using ext [of ?ns]
    by (simp add: expand_query_with_translations_def Let_def foldl_append_matches)
  have other: "lang \<noteq> ''en'' \<Longrightarrow> lang \<noteq> ''th'' \<Longrightarrow>
      expand_query_with_translations U query lang = [query]"
    by (simp add: expand_query_with_translations_def)
  have first: "\<exists>rest. expand_query_with_translations U query lang = query # rest \<and>
           (lower_keeps_uncased U \<longrightarrow> query \<notin> set rest)"
  proof (cases "lang = ''en''")
    case True
    show ?thesis
    proof (cases "?ms = []")
      case empty: True
      with en True show ?thesis by simp
    next
      case False
      have "lower_keeps_uncased U \<longrightarrow> str_join (ascii '' '') (map snd ?ms) \<noteq> query"
        using thai_only_differs [of U ?ms query] False by blast
      with en True False ext [of ?ms] show ?thesis
        by auto
    qed
  next
    case notEn: False
    show ?thesis
    proof (cases "lang = ''th''")
      case True
      with th ext [of ?ns] show ?thesis
        by auto
    next
      case False
      with notEn other show ?thesis by simp
    qed
  qed
  have nomatch: "(lang = ''en'' \<longrightarrow>
       (\<forall>(en_term, th_term) \<in> set THAI_SECURITY_KEYWORDS. \<not> ?P en_term)) \<and>
    (lang = ''th'' \<longrightarrow>
       (\<forall>(th_term, en_term) \<in> set ENGLISH_SECURITY_KEYWORDS. \<not> ?Q th_term))
    \<longrightarrow> expand_query_with_translations U query lang = [query]"
  proof
    assume a: "(lang = ''en'' \<longrightarrow>
       (\<forall>(en_term, th_term) \<in> set THAI_SECURITY_KEYWORDS. \<not> ?P en_term)) \<and>
    (lang = ''th'' \<longrightarrow>
       (\<forall>(th_term, en_term) \<in> set ENGLISH_SECURITY_KEYWORDS. \<not> ?Q th_term))"
    show "expand_query_with_translations U query lang = [query]"
    proof (cases "lang = ''en''")
      case True
      with a have "?ms = []"
        by (auto simp: filter_empty_conv)
      with en True show ?thesis by simp
    next
      case notEn: False
      show ?thesis
      proof (cases "lang = ''th''")
        case True
        with a have "?ns = []"
          by (auto simp: filter_empty_conv)
        with th True show ?thesis by simp
      next
        case False
        with notEn other show ?thesis by simp
      qed
    qed
  qed
  from first nomatch show ?thesis by blast
qed

lemma sample_lower_keeps_uncased: "lower_keeps_uncased sample_pystr"
proof -
  have "map (\<lambda>c. if 65 \<le> c \<and> c \<le> 90 then c + 32 else c) s = s"
    if "\<forall>c \<in> set s. c = 32 \<or> (97 \<le> c \<and> c \<le> 122) \<or> is_thai_char c" for s :: ustring
    using that by (intro map_idI) (auto simp: is_thai_char_def)
  then show ?thesis
    by (simp add: lower_keeps_uncased_def sample_pystr_def ascii_lower_def)
qed

text \<open>
  C6 at the English query \<open>web security\<close>, which gets its two variants, at the Thai
  query for \<open>audit\<close>, which gets one, and at \<open>Hello\<close>, which no term matches.
\<close>

theorem expand_original_first_once_witness:
  "lower_keeps_uncased sample_pystr \<and>
   expand_query_with_translations sample_pystr (ascii ''web security'') ''en'' =
     [ascii ''web security'', ascii ''web security '' @ th_web_security, th_web_security] \<and>
   ascii ''web security'' \<notin> set [ascii ''web security '' @ th_web_security, th_web_security] \<and>
   expand_query_with_translations sample_pystr th_audit ''th'' =
     [th_audit, th_audit @ ascii '' audit''] \<and>
   list_all (\<lambda>(en_term, th_term).
       \<not> str_contains (str_lower sample_pystr en_term) (str_lower sample_pystr (ascii ''Hello'')))
     THAI_SECURITY_KEYWORDS \<and>
   expand_query_with_translations sample_pystr (ascii ''Hello'') ''en'' = [ascii ''Hello'']"
proof -
  have ex1: "expand_query_with_translations sample_pystr (ascii ''web security'') ''en'' =
     [ascii ''web security'', ascii ''web security '' @ th_web_security, th_web_security]"
    by (simp add: expand_query_with_translations_def THAI_SECURITY_KEYWORDS_def sample_defs
        ascii_lower_def ascii_def th_web_security_def)
  have ex2: "expand_query_with_translations sample_pystr th_audit ''th'' =
     [th_audit, th_audit @ ascii '' audit'']"
    by (simp add: expand_query_with_translations_def ENGLISH_SECURITY_KEYWORDS_def
        THAI_SECURITY_KEYWORDS_def ascii_def th_audit_def)
  have none: "list_all (\<lambda>(en_term, th_term).
       \<not> str_contains (str_lower sample_pystr en_term) (str_lower sample_pystr (ascii ''Hello'')))
     THAI_SECURITY_KEYWORDS"
    by (simp add: THAI_SECURITY_KEYWORDS_def sample_defs ascii_lower_def ascii_def)
  then have none': "\<forall>(en_term, th_term) \<in> set THAI_SECURITY_KEYWORDS.
       \<not> str_contains (str_lower sample_pystr en_term) (str_lower sample_pystr (ascii ''Hello''))"
    by (simp add: list_all_iff)
  show ?thesis
    using sample_lower_keeps_uncased ex1 ex2 none none'
      expand_original_first_once [of sample_pystr "ascii ''web security''" "''en''"]
      expand_original_first_once [of sample_pystr "ascii ''Hello''" "''en''"]
    by simp
qed

section \<open>Properties of the chunking\<close>










lemmas chunk_eval_defs =
  chunk_all_content_def chunk_slide_style_def chunk_slide_group_def chunk_textbook_style_def
  chunk_thai_style_def split_documents_def create_documents_def sorted_by_def
  slide_sort_key_def slide_group_key_def is_text_item_def is_special_item_def
  textbook_docs_def slide_docs_def thai_docs_def other_docs_def
  textbook_item_def slide_item_def thai_item_def visual_item_def whole_text_def mk_doc_def
  separators_def


lemma groupby_concat: "concat (map snd (groupby key xs)) = xs"
  by (induction key xs rule: groupby.induct) simp_all

lemma groupby_groups:
  "(k, g) \<in> set (groupby key xs) \<Longrightarrow> g \<noteq> [] \<and> (\<forall>x \<in> set g. key x = k) \<and> set g \<subseteq> set xs"
proof (induction key xs rule: groupby.induct)
  case (1 key)
  then show ?case by simp
next
  case (2 key x xs)
  from "2.prems" consider
    (head) "k = key x" "g = x # takeWhile (\<lambda>y. key y = key x) xs" |
    (tail) "(k, g) \<in> set (groupby key (dropWhile (\<lambda>y. key y = key x) xs))"
    by auto
  then show ?case
  proof cases
    case head
    then show ?thesis
      by (auto dest: set_takeWhileD)
  next
    case tail
    from "2.IH" [OF tail] show ?thesis
      by (auto dest: set_dropWhileD)
  qed
qed

lemma sorted_by_set: "sorted_by key xs = Inr ys \<Longrightarrow> set ys = set xs"
  by (auto simp: sorted_by_def split: if_splits)

lemma sorted_by_total:
  "\<forall>x \<in> set xs. key x \<noteq> PNone \<Longrightarrow> \<exists>ys. sorted_by key xs = Inr ys"
  by (simp add: sorted_by_def list_ex_iff)

lemma create_documents_single:
  "create_documents sp [s] [meta] =
     map (\<lambda>chunk. \<lparr>page_content = chunk, metadata = meta\<rparr>) (sp s)"
  by (simp add: create_documents_def)

lemma text_not_special: "is_text_item d \<Longrightarrow> \<not> is_special_item d"
  by (simp add: is_text_item_def is_special_item_def)

lemma chunk_slide_group_special:
  "filter is_special_item (chunk_slide_group sp g) = filter is_special_item g"
proof (cases "filter is_text_item g")
  case Nil
  then show ?thesis
    by (simp add: chunk_slide_group_def)
next
  case (Cons t ts)
  then have "t \<in> set (filter is_text_item g)"
    by simp
  then have "is_text_item t"
    by simp
  then have "\<not> is_special_item \<lparr>page_content = c, metadata = metadata t\<rparr>" for c
    by (simp add: is_text_item_def is_special_item_def)
  then have "filter is_special_item
      (map (\<lambda>chunk. \<lparr>page_content = chunk, metadata = metadata t\<rparr>) (sp s)) = []" for s
    by (simp add: filter_empty_conv)
  with Cons show ?thesis
    by (simp add: chunk_slide_group_def create_documents_single)
qed

lemma filter_concat_map:
  "filter P (concat (map f xs)) = concat (map (\<lambda>x. filter P (f x)) xs)"
  by (induction xs) simp_all

lemma slide_chunks_special:
  "filter is_special_item
     (concat (map (\<lambda>(slide_num, slide_items). chunk_slide_group sp slide_items) (groupby key xs)))
   = filter is_special_item xs"
proof -
  have "filter is_special_item
     (concat (map (\<lambda>(slide_num, slide_items). chunk_slide_group sp slide_items) (groupby key xs)))
    = concat (map (\<lambda>kg. filter is_special_item (snd kg)) (groupby key xs))"
    by (simp add: filter_concat_map chunk_slide_group_special case_prod_beta)
  also have "\<dots> = filter is_special_item (concat (map snd (groupby key xs)))"
    by (simp add: filter_concat_map comp_def)
  finally show ?thesis
    by (simp add: groupby_concat)
qed

text \<open>
  Claim C10. The slide chunker returns for every list of items whose slide numbers are
  integers. Of the chunks it returns, each is either an item of the input with the
  content type table, diagram or image, passed on as it is, or a piece of the joined
  texts of text items of the input that all have one slide number. The special chunks
  are the special items of the input, each once, in the order of their slides; so
  every table and every diagram of the input is a chunk, text and metadata unchanged.
\<close>

theorem chunk_slide_style_provenance:
  "((\<forall>d \<in> set docs. slide_sort_key d \<noteq> PNone) \<longrightarrow>
      (\<exists>chunks. chunk_slide_style R docs = Inr chunks)) \<and>
   (chunk_slide_style R docs = Inr chunks \<longrightarrow>
      (\<forall>c \<in> set chunks.
         (is_special_item c \<and> c \<in> set docs) \<or>
         (\<exists>n items. items \<noteq> [] \<and> set items \<subseteq> set docs \<and>
            (\<forall>d \<in> set items. is_text_item d \<and> slide_group_key d = n) \<and>
            c \<in> set (create_documents (R 1000 100 separators)
                        [str_join [10] (map page_content items)] [metadata (hd items)]))) \<and>
      (\<exists>sorted_docs. sorted_by slide_sort_key docs = Inr sorted_docs \<and>
         filter is_special_item chunks = filter is_special_item sorted_docs) \<and>
      (\<forall>d \<in> set docs. is_special_item d \<longrightarrow> d \<in> set chunks))"
proof (intro conjI impI)
  assume "\<forall>d \<in> set docs. slide_sort_key d \<noteq> PNone"
  then obtain ys where "sorted_by slide_sort_key docs = Inr ys"
    using sorted_by_total by blast
  then show "\<exists>chunks. chunk_slide_style R docs = Inr chunks"
    by (simp add: chunk_slide_style_def)
next
  assume run: "chunk_slide_style R docs = Inr chunks"
  let ?sp = "R 1000 100 separators"
  from run obtain sorted_docs where
    sorted: "sorted_by slide_sort_key docs = Inr sorted_docs" and
    chunks: "chunks = concat (map (\<lambda>(slide_num, slide_items). chunk_slide_group ?sp slide_items)
                                  (groupby slide_group_key sorted_docs))"
    by (auto simp: chunk_slide_style_def split: sum.splits)
  have same: "set sorted_docs = set docs"
    using sorted by (rule sorted_by_set)
  have special: "filter is_special_item chunks = filter is_special_item sorted_docs"
    unfolding chunks by (rule slide_chunks_special)
  show "\<exists>sorted_docs. sorted_by slide_sort_key docs = Inr sorted_docs \<and>
         filter is_special_item chunks = filter is_special_item sorted_docs"
    using sorted special by blast
  show "\<forall>d \<in> set docs. is_special_item d \<longrightarrow> d \<in> set chunks"
  proof (intro ballI impI)
    fix d
    assume "d \<in> set docs" "is_special_item d"
    then have "d \<in> set (filter is_special_item sorted_docs)"
      using same by simp
    then have "d \<in> set (filter is_special_item chunks)"
      by (simp only: special)
    then show "d \<in> set chunks"
      by simp
  qed
  show "\<forall>c \<in> set chunks.
         (is_special_item c \<and> c \<in> set docs) \<or>
         (\<exists>n items. items \<noteq> [] \<and> set items \<subseteq> set docs \<and>
            (\<forall>d \<in> set items. is_text_item d \<and> slide_group_key d = n) \<and>
            c \<in> set (create_documents ?sp
                        [str_join [10] (map page_content items)] [metadata (hd items)]))"
  proof
    fix c
    assume "c \<in> set chunks"
    then obtain n g where grp: "(n, g) \<in> set (groupby slide_group_key sorted_docs)"
      and c: "c \<in> set (chunk_slide_group ?sp g)"
      unfolding chunks by auto
    from groupby_groups [OF grp] have key: "\<forall>x \<in> set g. slide_group_key x = n"
      and sub: "set g \<subseteq> set docs"
      using same by auto
    let ?items = "filter is_text_item g"
    from c consider
      (from_text) "?items \<noteq> []"
        "c \<in> set (create_documents ?sp [str_join [10] (map page_content ?items)]
                      [metadata (hd ?items)])" |
      (passed) "c \<in> set (filter is_special_item g)"
      by (auto simp: chunk_slide_group_def Let_def split: if_splits)
    then show "(is_special_item c \<and> c \<in> set docs) \<or>
         (\<exists>n items. items \<noteq> [] \<and> set items \<subseteq> set docs \<and>
            (\<forall>d \<in> set items. is_text_item d \<and> slide_group_key d = n) \<and>
            c \<in> set (create_documents ?sp
                        [str_join [10] (map page_content items)] [metadata (hd items)]))"
    proof cases
      case passed
      with sub show ?thesis by auto
    next
      case from_text
      have "set ?items \<subseteq> set docs"
        using sub by auto
      moreover have "\<forall>d \<in> set ?items. is_text_item d \<and> slide_group_key d = n"
        using key by simp
      ultimately show ?thesis
        using from_text by blast
    qed
  qed
qed

text \<open>
  C10 at five items of two slides: the texts of slide 2 are joined with each other and
  not with the text of slide 1, and the table and the diagram are chunks as they are.
\<close>

theorem chunk_slide_style_provenance_witness:
  "list_all (\<lambda>d. slide_sort_key d \<noteq> PNone)
     [slide_item 2 ''text'' ''two-a'', slide_item 1 ''text'' ''one'', slide_item 2 ''table'' ''tab'',
      slide_item 1 ''diagram'' ''dia'', slide_item 2 ''text'' ''two-b''] \<and>
   chunk_slide_style whole_text
     [slide_item 2 ''text'' ''two-a'', slide_item 1 ''text'' ''one'', slide_item 2 ''table'' ''tab'',
      slide_item 1 ''diagram'' ''dia'', slide_item 2 ''text'' ''two-b''] =
     Inr [slide_item 1 ''text'' ''one'', slide_item 1 ''diagram'' ''dia'',
          (slide_item 2 ''text'' ''two-a'')\<lparr>page_content := ascii ''two-a'' @ [10] @ ascii ''two-b''\<rparr>,
          slide_item 2 ''table'' ''tab''] \<and>
   is_special_item (slide_item 2 ''table'' ''tab'') \<and>
   slide_item 2 ''table'' ''tab'' \<in> set
     [slide_item 1 ''text'' ''one'', slide_item 1 ''diagram'' ''dia'',
      (slide_item 2 ''text'' ''two-a'')\<lparr>page_content := ascii ''two-a'' @ [10] @ ascii ''two-b''\<rparr>,
      slide_item 2 ''table'' ''tab'']"
proof -
  let ?docs = "[slide_item 2 ''text'' ''two-a'', slide_item 1 ''text'' ''one'',
      slide_item 2 ''table'' ''tab'', slide_item 1 ''diagram'' ''dia'',
      slide_item 2 ''text'' ''two-b'']"
  let ?chunks = "[slide_item 1 ''text'' ''one'', slide_item 1 ''diagram'' ''dia'',
          (slide_item 2 ''text'' ''two-a'')\<lparr>page_content := ascii ''two-a'' @ [10] @ ascii ''two-b''\<rparr>,
          slide_item 2 ''table'' ''tab'']"
  have keys: "list_all (\<lambda>d. slide_sort_key d \<noteq> PNone) ?docs"
    by (simp add: slide_sort_key_def slide_item_def)
  then have keys': "\<forall>d \<in> set ?docs. slide_sort_key d \<noteq> PNone"
    by (simp only: list_all_iff)
  have run: "chunk_slide_style whole_text ?docs = Inr ?chunks"
    by (simp add: chunk_eval_defs ascii_def)
  have special: "is_special_item (slide_item 2 ''table'' ''tab'')"
    by (simp add: is_special_item_def slide_item_def)
  have mem: "slide_item 2 ''table'' ''tab'' \<in> set ?docs"
    by simp
  have "slide_item 2 ''table'' ''tab'' \<in> set ?chunks"
    using chunk_slide_style_provenance [of ?docs whole_text ?chunks] run special mem
    by blast
  with keys run special show ?thesis
    by blast
qed

text \<open>
  With two items of which one has \<open>None\<close> for its slide number, the sort raises.
\<close>

lemma chunk_slide_style_None_slide:
  "chunk_slide_style whole_text
     [slide_item 1 ''text'' ''one'',
      (slide_item 1 ''text'' ''none'')\<lparr>metadata := (metadata (slide_item 1 ''text'' ''none''))\<lparr>slide_num := Some PNone\<rparr>\<rparr>]
   = Inl TypeError"
  by (simp add: chunk_eval_defs)

end
